theory Spec2Isabelle
  imports Complex_Main "HOL-Library.Word"
begin

section \<open>Volumetric gain engine of the TSDF server\<close>

text \<open>
  A shallow embedding of the gain-related part of \<^verbatim>\<open>voxblox_ros/src/tsdf_server.cc\<close>:
  \<^verbatim>\<open>SensorParamsBase::initialize\<close>, \<^verbatim>\<open>SensorParamsBase::getFrustumEndpoints\<close>,
  \<^verbatim>\<open>TsdfServer::checkUnknownStatus\<close>, \<^verbatim>\<open>TsdfServer::getScanStatus\<close>,
  \<^verbatim>\<open>TsdfServer::computeVolumetricGainRayModelNoBound\<close>,
  \<^verbatim>\<open>TsdfServer::spreadInterestingness\<close>, the loop that resets the observed flags, and
  \<^verbatim>\<open>TsdfServer::baselineInfoGainCallback\<close>.

  Conventions of the embedding.
  \<^item> \<^verbatim>\<open>float\<close> and \<^verbatim>\<open>double\<close> values are real numbers. Rounding is modelled where a loop
    counts with it, that is for the two loop variables of \<^verbatim>\<open>initialize\<close>, which are stepped
    by \<^verbatim>\<open>double\<close> addition rounded to the nearest value, ties to even; elsewhere it is
    not. Infinities and NaN are not modelled.
  \<^item> \<^verbatim>\<open>unsigned int\<close> counters are 32-bit words (addition wraps); reading one into an
    \<^verbatim>\<open>int\<close> is \<open>sint\<close>.
  \<^item> The voxel layer is a partial map from global indices to voxels; a null pointer
    returned by \<^verbatim>\<open>getVoxelPtrByGlobalIndex\<close> is \<open>None\<close>. A pointer to a voxel is its index:
    every read through the pointer is a lookup in the current layer.
  \<^item> A queue (\<^verbatim>\<open>AlignedQueue\<close>) is a list: \<^verbatim>\<open>front\<close> is the head, \<^verbatim>\<open>pop\<close> removes the
    head, \<^verbatim>\<open>push\<close> appends at the end.
  \<^item> Dereferencing a null voxel pointer is the error value \<open>NullPointerDereference\<close>.
  \<^item> Incrementing an \<^verbatim>\<open>int\<close> that holds the largest value of its type is the error value
    \<open>SignedIntegerOverflow\<close>.
\<close>

subsection \<open>Data model\<close>

type_synonym Point = "real \<times> real \<times> real"

type_synonym GlobalIndex = "int \<times> int \<times> int"

type_synonym StateVec = "real \<times> real \<times> real \<times> real \<times> real \<times> real"

datatype error = NullPointerDereference | SignedIntegerOverflow

text \<open>
  Modelled from the spec: \<^verbatim>\<open>voxblox::TsdfVoxel\<close> is declared in the voxblox core library,
  which is not part of the sources at hand. The record has the fields that
  \<^verbatim>\<open>tsdf_server.cc\<close> reads and writes, typed as section 3 of the specification describes
  them: a signed distance, an integration weight, an interestingness scalar, an integer
  propagation distance and the two transient flags.
\<close>

record TsdfVoxel =
  distance :: real
  weight :: real
  interestingness :: real
  interesting_distance :: int
  in_queue :: bool
  is_observed :: bool

record SensorParamsBase =
  min_range :: real
  max_range :: real
  fov :: "real \<times> real"
  resolution :: "real \<times> real"
  height :: int
  width :: int
  frustum_endpoints :: "Point list"
  frustum_endpoints_B :: "Point list"

record VolumetricGain =
  gain :: real
  accumulative_gain :: real
  num_unknown_voxels :: int
  num_free_voxels :: int
  num_occupied_voxels :: int
  num_unknown_surf_voxels :: int
  unseen_voxel_hash_keys :: "nat list"
  is_frontier :: bool

text \<open>
  The members of \<^verbatim>\<open>TsdfServer\<close> that stay fixed during a query, together with the three
  operations of the voxblox core that the server calls and whose code is not at hand, taken
  as parameters: the ray caster (the finite sequence of global indices that
  \<^verbatim>\<open>RayCaster::nextRayIndex\<close> yields for an origin and an end point),
  \<^verbatim>\<open>getCenterPointFromGridIndex\<close> and \<^verbatim>\<open>Neighborhood<>::getFromGlobalIndex\<close>.
\<close>

record Config =
  voxel_size :: real
  area_factor :: real
  decay_lambda :: real
  decay_distance :: real
  camera_param :: SensorParamsBase
  camera_states :: "nat \<Rightarrow> nat \<Rightarrow> real"
  rayCaster :: "Point \<Rightarrow> Point \<Rightarrow> GlobalIndex list"
  getCenterPointFromGridIndex :: "GlobalIndex \<Rightarrow> real \<Rightarrow> Point"
  getFromGlobalIndex :: "GlobalIndex \<Rightarrow> GlobalIndex list"

text \<open>The mutable part of the server: the layer and the two queues of global indices.\<close>

record TsdfServer =
  sdf_layer :: "GlobalIndex \<rightharpoonup> TsdfVoxel"
  interesting_voxels :: "GlobalIndex list"
  observed_voxels :: "GlobalIndex list"

text \<open>The local accumulators of \<^verbatim>\<open>getScanStatus\<close>.\<close>

record ScanCounters =
  num_unknown :: "32 word"
  num_free :: "32 word"
  num_occupied :: "32 word"
  interestingness_sum :: real

subsection \<open>The sensor frustum\<close>














subsection \<open>The scan classifier\<close>

definition checkUnknownStatus :: "TsdfVoxel option \<Rightarrow> bool" where
  "checkUnknownStatus voxel =
     (case voxel of None \<Rightarrow> True | Some v \<Rightarrow> if weight v < 1 / 10 ^ 6 then True else False)"

definition distance_thres :: "Config \<Rightarrow> real" where
  "distance_thres cfg = voxel_size cfg + 1 / 10 ^ 6"

text \<open>
  The term added to the running gain in the Unknown and in the Occupied branch:
  \<^verbatim>\<open>voxel->interestingness * exp(-area_factor_ * z2)\<close>, with \<open>z2\<close> the squared distance from
  the centre of the voxel to the origin of the scan.
\<close>

definition decayedInterestingness :: "Config \<Rightarrow> Point \<Rightarrow> GlobalIndex \<Rightarrow> TsdfVoxel \<Rightarrow> real" where
  "decayedInterestingness cfg point_pos global_index voxel =
     (case getCenterPointFromGridIndex cfg global_index (voxel_size cfg) of
        (cx, cy, cz) \<Rightarrow>
          (case point_pos of
             (px, py, pz) \<Rightarrow>
               (let d0 = cx - px; d1 = cy - py; d2 = cz - pz;
                    z2 = d0 * d0 + d1 * d1 + d2 * d2
                in interestingness voxel * exp (- area_factor cfg * z2))))"

text \<open>\<^verbatim>\<open>voxel->is_observed = true; observed_voxels->push(global_index);\<close>\<close>

definition markObserved :: "TsdfServer \<Rightarrow> GlobalIndex \<Rightarrow> TsdfVoxel \<Rightarrow> TsdfServer" where
  "markObserved s global_index voxel =
     s\<lparr>sdf_layer := (sdf_layer s)(global_index \<mapsto> voxel\<lparr>is_observed := True\<rparr>),
       observed_voxels := observed_voxels s @ [global_index]\<rparr>"

text \<open>
  The \<^verbatim>\<open>while (ray_caster.nextRayIndex(&global_index))\<close> loop of one ray, over the indices
  the ray caster yields. The last branch returns without looking at the rest of the ray:
  that is the \<^verbatim>\<open>break\<close>.
\<close>

fun rayLoop ::
  "Config \<Rightarrow> Point \<Rightarrow> GlobalIndex list \<Rightarrow> ScanCounters \<times> TsdfServer \<Rightarrow> ScanCounters \<times> TsdfServer"
where
  "rayLoop cfg point_pos [] (c, s) = (c, s)"
| "rayLoop cfg point_pos (global_index # rest) (c, s) =
     (let voxel = sdf_layer s global_index in
      if checkUnknownStatus voxel then
        (case voxel of
           None \<Rightarrow> rayLoop cfg point_pos rest (c, s)
         | Some v \<Rightarrow>
             if \<not> is_observed v then
               rayLoop cfg point_pos rest
                 (c\<lparr>num_unknown := num_unknown c + 1,
                    interestingness_sum :=
                      interestingness_sum c + decayedInterestingness cfg point_pos global_index v\<rparr>,
                  markObserved s global_index v)
             else rayLoop cfg point_pos rest (c, s))
      else if distance (the voxel) > distance_thres cfg then
        (if \<not> is_observed (the voxel) then
           rayLoop cfg point_pos rest
             (c\<lparr>num_free := num_free c + 1\<rparr>, markObserved s global_index (the voxel))
         else rayLoop cfg point_pos rest (c, s))
      else
        (if \<not> is_observed (the voxel) then
           (c\<lparr>num_occupied := num_occupied c + 1,
              interestingness_sum :=
                interestingness_sum c
                  + decayedInterestingness cfg point_pos global_index (the voxel)\<rparr>,
            markObserved s global_index (the voxel))
         else (c, s)))"

text \<open>The \<^verbatim>\<open>for\<close> loop over the end points: one ray caster and one ray loop per end point.\<close>

fun endpointLoop ::
  "Config \<Rightarrow> Point \<Rightarrow> Point list \<Rightarrow> ScanCounters \<times> TsdfServer \<Rightarrow> ScanCounters \<times> TsdfServer"
where
  "endpointLoop cfg point_pos [] cs = cs"
| "endpointLoop cfg point_pos (endpoint # rest) cs =
     endpointLoop cfg point_pos rest (rayLoop cfg point_pos (rayCaster cfg point_pos endpoint) cs)"

definition initialCounters :: ScanCounters where
  "initialCounters =
     \<lparr>num_unknown = 0, num_free = 0, num_occupied = 0, interestingness_sum = 0\<rparr>"

text \<open>
  \<^verbatim>\<open>getScanStatus\<close> returns the accumulated interestingness and writes the three counters
  to \<^verbatim>\<open>gain_log\<close>; the model returns both, and the server as the scan leaves it.
\<close>

definition getScanStatus ::
  "Config \<Rightarrow> TsdfServer \<Rightarrow> Point \<Rightarrow> Point list
     \<Rightarrow> real \<times> (32 word \<times> 32 word \<times> 32 word) \<times> TsdfServer"
where
  "getScanStatus cfg s pos multiray_endpoints =
     (case endpointLoop cfg pos multiray_endpoints (initialCounters, s) of
        (c, s') \<Rightarrow> (interestingness_sum c, (num_unknown c, num_free c, num_occupied c), s'))"

text \<open>
  The branch the ray loop takes for a looked-up voxel, named after the comments of the three
  branches (\<^verbatim>\<open>// Unknown\<close>, \<^verbatim>\<open>// Free\<close>, \<^verbatim>\<open>// Occupied\<close>) and the enumeration
  \<^verbatim>\<open>VoxelStatus\<close> of the header.
\<close>

datatype VoxelStatus = kUnknown | kOccupied | kFree

definition voxelStatus :: "Config \<Rightarrow> TsdfVoxel option \<Rightarrow> VoxelStatus" where
  "voxelStatus cfg voxel =
     (if checkUnknownStatus voxel then kUnknown
      else if distance (the voxel) > distance_thres cfg then kFree
      else kOccupied)"

subsection \<open>Resetting the observed flags\<close>

text \<open>
  The loop that follows every gain evaluation in the two service callbacks:
  \<^verbatim>\<open>while (!observed_voxels->empty()) { index = front(); voxel = lookup(index);
  voxel->is_observed = false; pop(); }\<close>. The write goes through the looked-up pointer
  without a null check.
\<close>

fun drainLoop ::
  "GlobalIndex list \<Rightarrow> (GlobalIndex \<rightharpoonup> TsdfVoxel) \<Rightarrow> error + (GlobalIndex \<rightharpoonup> TsdfVoxel)"
where
  "drainLoop [] layer = Inr layer"
| "drainLoop (global_index # rest) layer =
     (case layer global_index of
        None \<Rightarrow> Inl NullPointerDereference
      | Some voxel \<Rightarrow> drainLoop rest (layer(global_index \<mapsto> voxel\<lparr>is_observed := False\<rparr>)))"

definition resetObservedVoxels :: "TsdfServer \<Rightarrow> error + TsdfServer" where
  "resetObservedVoxels s =
     (case drainLoop (observed_voxels s) (sdf_layer s) of
        Inl e \<Rightarrow> Inl e
      | Inr layer \<Rightarrow> Inr (s\<lparr>sdf_layer := layer, observed_voxels := []\<rparr>))"

text \<open>A layer in which the voxels at the given indices carry the observed flag.\<close>

definition markedLayer ::
  "(GlobalIndex \<rightharpoonup> TsdfVoxel) \<Rightarrow> GlobalIndex list \<Rightarrow> (GlobalIndex \<rightharpoonup> TsdfVoxel)"
where
  "markedLayer layer pushed =
     (\<lambda>i. if i \<in> set pushed then map_option (\<lambda>v. v\<lparr>is_observed := True\<rparr>) (layer i)
          else layer i)"

subsection \<open>Gain of one candidate state\<close>

text \<open>
  The rotations \<^verbatim>\<open>Eigen::AngleAxisd(angle, UnitX/UnitY/UnitZ)\<close> applied to a vector.
\<close>

definition rotateX :: "real \<Rightarrow> Point \<Rightarrow> Point" where
  "rotateX a p = (case p of (x, y, z) \<Rightarrow> (x, cos a * y - sin a * z, sin a * y + cos a * z))"

definition rotateY :: "real \<Rightarrow> Point \<Rightarrow> Point" where
  "rotateY a p = (case p of (x, y, z) \<Rightarrow> (cos a * x + sin a * z, y, - sin a * x + cos a * z))"

definition rotateZ :: "real \<Rightarrow> Point \<Rightarrow> Point" where
  "rotateZ a p = (case p of (x, y, z) \<Rightarrow> (cos a * x - sin a * y, sin a * x + cos a * y, z))"

definition addPoint :: "Point \<Rightarrow> Point \<Rightarrow> Point" where
  "addPoint p q = (case p of (px, py, pz) \<Rightarrow> case q of (qx, qy, qz) \<Rightarrow> (px + qx, py + qy, pz + qz))"

text \<open>
  \<^verbatim>\<open>rot_W2B = AngleAxisd(state[5], UnitZ) * AngleAxisd(state[4], UnitY) *
  AngleAxisd(state[3], UnitX)\<close>, and \<^verbatim>\<open>origin + rot_W2B * p\<close> for every stored end point.
\<close>

definition getFrustumEndpoints :: "SensorParamsBase \<Rightarrow> StateVec \<Rightarrow> Point list" where
  "getFrustumEndpoints sensor state =
     (case state of
        (s0, s1, s2, s3, s4, s5) \<Rightarrow>
          map (\<lambda>p. addPoint (s0, s1, s2) (rotateZ s5 (rotateY s4 (rotateX s3 p))))
            (frustum_endpoints_B sensor))"

text \<open>
  \<^verbatim>\<open>vgain.reset()\<close>, the scan from the position of the state over the end points of the
  camera, and the copy of the counters and of the gain into \<^verbatim>\<open>vgain\<close>. The counters pass
  through a \<^verbatim>\<open>std::tuple<int, int, int>\<close>.
\<close>

definition computeVolumetricGainRayModelNoBound ::
  "Config \<Rightarrow> TsdfServer \<Rightarrow> StateVec \<Rightarrow> VolumetricGain \<times> TsdfServer"
where
  "computeVolumetricGainRayModelNoBound cfg s state =
     (case state of
        (s0, s1, s2, s3, s4, s5) \<Rightarrow>
          (case getScanStatus cfg s (s0, s1, s2) (getFrustumEndpoints (camera_param cfg) state) of
             (scan_gain, (unknown, free, occupied), s') \<Rightarrow>
               (\<lparr>gain = scan_gain,
                 accumulative_gain = 0,
                 num_unknown_voxels = sint unknown,
                 num_free_voxels = sint free,
                 num_occupied_voxels = sint occupied,
                 num_unknown_surf_voxels = 0,
                 unseen_voxel_hash_keys = [],
                 is_frontier = False\<rparr>,
                s')))"

text \<open>
  What a scan does to the server, as a relation: the voxels at the indices \<open>pushed\<close>, which
  were allocated and not observed, are marked, and the indices are appended to the queue of
  observed voxels, each once.
\<close>

definition scanEffect :: "TsdfServer \<Rightarrow> GlobalIndex list \<Rightarrow> TsdfServer \<Rightarrow> bool" where
  "scanEffect s pushed s' \<longleftrightarrow>
     s' = s\<lparr>sdf_layer := markedLayer (sdf_layer s) pushed,
            observed_voxels := observed_voxels s @ pushed\<rparr>
     \<and> distinct pushed
     \<and> (\<forall>i\<in>set pushed. \<exists>v. sdf_layer s i = Some v \<and> \<not> is_observed v)"

subsection \<open>Gain of the trajectory library\<close>

text \<open>The sizes of the library, from \<^verbatim>\<open>tsdf_server.h\<close>.\<close>

definition kNumYaw :: nat where "kNumYaw = 32"
definition kNumVelZ :: nat where "kNumVelZ = 8"
definition kNumVelX :: nat where "kNumVelX = 1"
definition kNumTimestep :: nat where "kNumTimestep = 15"

text \<open>
  \<^verbatim>\<open>camera_states_rotated_\<close> as \<^verbatim>\<open>baselineInfoGainCallback\<close> fills it: for every time step
  \<open>idx\<close>, columns \<open>3 \<cdot> idx\<close> to \<open>3 \<cdot> idx + 2\<close> hold the row vector of columns \<open>6 \<cdot> idx\<close> to
  \<open>6 \<cdot> idx + 2\<close> of \<^verbatim>\<open>camera_states_\<close> times the matrix of
  \<^verbatim>\<open>AngleAxisd(-robot_pose[5], UnitZ)\<close>, plus the position of the robot. The request's
  \<^verbatim>\<open>robot_pose\<close> is a state of six numbers.
\<close>

definition camera_states_rotated :: "Config \<Rightarrow> StateVec \<Rightarrow> nat \<Rightarrow> nat \<Rightarrow> real" where
  "camera_states_rotated cfg robot_pose row col =
     (case robot_pose of
        (r0, r1, r2, r3, r4, r5) \<Rightarrow>
          (let idx = col div 3;
               x = camera_states cfg row (6 * idx);
               y = camera_states cfg row (6 * idx + 1);
               z = camera_states cfg row (6 * idx + 2);
               c = cos (- r5);
               s = sin (- r5)
           in if col mod 3 = 0 then x * c + y * s + z * 0 + r0
              else if col mod 3 = 1 then x * (- s) + y * c + z * 0 + r1
              else x * 0 + y * 0 + z * 1 + r2))"

text \<open>
  The state that is evaluated for entry \<open>idx\<close> at time step \<open>idx2\<close>: the rotated position,
  roll and pitch 0, and as yaw the yaw of the robot plus the yaw stored for the entry at
  that time step.
\<close>

definition timestepState :: "Config \<Rightarrow> StateVec \<Rightarrow> nat \<Rightarrow> nat \<Rightarrow> StateVec" where
  "timestepState cfg robot_pose idx idx2 =
     (case robot_pose of
        (r0, r1, r2, r3, r4, r5) \<Rightarrow>
          (camera_states_rotated cfg robot_pose idx (3 * idx2),
           camera_states_rotated cfg robot_pose idx (3 * idx2 + 1),
           camera_states_rotated cfg robot_pose idx (3 * idx2 + 2),
           0, 0,
           r5 + camera_states cfg idx (6 * idx2 + 5)))"

text \<open>
  The loop over the time steps of one entry, with \<^verbatim>\<open>seq_gains[idx]\<close> and the server: at
  the four selected time steps the gain is evaluated and added and the observed flags are
  reset.
\<close>

fun timestepLoop ::
  "Config \<Rightarrow> StateVec \<Rightarrow> nat \<Rightarrow> nat list \<Rightarrow> real \<times> TsdfServer \<Rightarrow> error + (real \<times> TsdfServer)"
where
  "timestepLoop cfg robot_pose idx [] (seq_gain, s) = Inr (seq_gain, s)"
| "timestepLoop cfg robot_pose idx (idx2 # rest) (seq_gain, s) =
     (if idx2 = 2 \<or> idx2 = 6 \<or> idx2 = 10 \<or> idx2 = 14 then
        (case computeVolumetricGainRayModelNoBound cfg s (timestepState cfg robot_pose idx idx2) of
           (vgain, s') \<Rightarrow>
             (case resetObservedVoxels s' of
                Inl e \<Rightarrow> Inl e
              | Inr s'' \<Rightarrow> timestepLoop cfg robot_pose idx rest (seq_gain + gain vgain, s'')))
      else timestepLoop cfg robot_pose idx rest (seq_gain, s))"

text \<open>
  The loop over the entries of the library, with \<^verbatim>\<open>response.info_gain\<close> and the server,
  and the callback, which starts it with an empty response.
\<close>

fun sequenceLoop ::
  "Config \<Rightarrow> StateVec \<Rightarrow> nat list \<Rightarrow> real list \<times> TsdfServer \<Rightarrow> error + (real list \<times> TsdfServer)"
where
  "sequenceLoop cfg robot_pose [] (info_gain, s) = Inr (info_gain, s)"
| "sequenceLoop cfg robot_pose (idx # rest) (info_gain, s) =
     (case timestepLoop cfg robot_pose idx [0..<kNumTimestep] (0, s) of
        Inl e \<Rightarrow> Inl e
      | Inr (seq_gain, s') \<Rightarrow> sequenceLoop cfg robot_pose rest (info_gain @ [seq_gain], s'))"

definition baselineInfoGainCallback ::
  "Config \<Rightarrow> TsdfServer \<Rightarrow> StateVec \<Rightarrow> error + (real list \<times> TsdfServer)"
where
  "baselineInfoGainCallback cfg s robot_pose =
     sequenceLoop cfg robot_pose [0..<kNumYaw * kNumVelZ * kNumVelX] ([], s)"

text \<open>The time steps among the given ones at which the callback evaluates the gain.\<close>

definition evaluatedSteps :: "nat list \<Rightarrow> nat list" where
  "evaluatedSteps ts = filter (\<lambda>t. t = 2 \<or> t = 6 \<or> t = 10 \<or> t = 14) ts"

subsection \<open>Diffusion of interestingness\<close>

text \<open>
  The body of the loop over the neighbours in \<^verbatim>\<open>spreadInterestingness\<close>, for one neighbour.
  \<^verbatim>\<open>parent_voxel\<close> is a pointer that the code reads without a null check, and only in the
  branch of an Unknown neighbour: the read is a lookup of the parent index in the current
  layer, and an absent parent is the error.
\<close>

definition visitNeighbor ::
  "Config \<Rightarrow> GlobalIndex \<Rightarrow> GlobalIndex \<Rightarrow> TsdfServer \<Rightarrow> error + TsdfServer"
where
  "visitNeighbor cfg parent_index neighbor_index s =
     (case sdf_layer s neighbor_index of
        None \<Rightarrow> Inr s
      | Some neighbor_voxel \<Rightarrow>
          if checkUnknownStatus (Some neighbor_voxel) then
            (case sdf_layer s parent_index of
               None \<Rightarrow> Inl NullPointerDereference
             | Some parent_voxel \<Rightarrow>
                 (let updated =
                        (if interesting_distance neighbor_voxel > interesting_distance parent_voxel + 1
                         then neighbor_voxel
                                \<lparr>interesting_distance := interesting_distance parent_voxel + 1,
                                 interestingness := decay_lambda cfg * interestingness parent_voxel\<rparr>
                         else neighbor_voxel)
                  in if \<not> in_queue updated
                        \<and> real_of_int (interesting_distance updated) < decay_distance cfg
                     then Inr (s\<lparr>sdf_layer :=
                                    (sdf_layer s)(neighbor_index \<mapsto> updated\<lparr>in_queue := True\<rparr>),
                                  interesting_voxels := interesting_voxels s @ [neighbor_index]\<rparr>)
                     else Inr (s\<lparr>sdf_layer := (sdf_layer s)(neighbor_index \<mapsto> updated)\<rparr>)))
          else Inr s)"

text \<open>The loop over the columns of \<^verbatim>\<open>neighbor_indices\<close>.\<close>

fun neighborLoop ::
  "Config \<Rightarrow> GlobalIndex \<Rightarrow> GlobalIndex list \<Rightarrow> TsdfServer \<Rightarrow> error + TsdfServer"
where
  "neighborLoop cfg parent_index [] s = Inr s"
| "neighborLoop cfg parent_index (neighbor_index # rest) s =
     (case visitNeighbor cfg parent_index neighbor_index s of
        Inl e \<Rightarrow> Inl e
      | Inr s' \<Rightarrow> neighborLoop cfg parent_index rest s')"

text \<open>
  \<^verbatim>\<open>while (!interesting_voxel_idx->empty())\<close>, on the queue of interesting voxels of the
  server: the front index is popped and its neighbours are visited. A run that does not end
  has the value \<open>None\<close>.
\<close>

partial_function (option) spreadInterestingness ::
  "Config \<Rightarrow> TsdfServer \<Rightarrow> (error + TsdfServer) option"
where
  "spreadInterestingness cfg s =
     (case interesting_voxels s of
        [] \<Rightarrow> Some (Inr s)
      | global_index_tmp # rest \<Rightarrow>
          (case neighborLoop cfg global_index_tmp (getFromGlobalIndex cfg global_index_tmp)
                  (s\<lparr>interesting_voxels := rest\<rparr>) of
             Inl e \<Rightarrow> Some (Inl e)
           | Inr s' \<Rightarrow> spreadInterestingness cfg s'))"

text \<open>
  For the termination of the diffusion: the allocated voxels whose \<^verbatim>\<open>in_queue\<close> flag is not
  set, and their number plus the length of the queue.
\<close>

definition notYetQueued :: "TsdfServer \<Rightarrow> GlobalIndex set" where
  "notYetQueued s = {i. \<exists>v. sdf_layer s i = Some v \<and> \<not> in_queue v}"

definition diffusionMeasure :: "TsdfServer \<Rightarrow> nat" where
  "diffusionMeasure s = card (notYetQueued s) + length (interesting_voxels s)"

text \<open>
  What the diffusion does to the layer, as a relation: no voxel is removed, no propagation
  distance grows, no \<^verbatim>\<open>in_queue\<close> flag is cleared, and a voxel whose flag was set in between
  has a propagation distance below the cutoff.
\<close>

definition diffusionEffect :: "Config \<Rightarrow> TsdfServer \<Rightarrow> TsdfServer \<Rightarrow> bool" where
  "diffusionEffect cfg s s' \<longleftrightarrow>
     (\<forall>i v. sdf_layer s i = Some v \<longrightarrow>
        (\<exists>v'. sdf_layer s' i = Some v' \<and> interesting_distance v' \<le> interesting_distance v \<and>
              (in_queue v \<longrightarrow> in_queue v'))) \<and>
     (\<forall>i v v'. sdf_layer s i = Some v \<and> \<not> in_queue v \<and> sdf_layer s' i = Some v' \<and> in_queue v'
        \<longrightarrow> real_of_int (interesting_distance v') < decay_distance cfg)"

subsection \<open>Concrete inputs\<close>

text \<open>
  A small map used to evaluate the definitions: voxels of size 1 along the x axis, a ray
  caster that walks the x axis from the cell of the origin to the cell of the end point, cell
  centres at the half-integers, and the six face neighbours of a cell.
\<close>

definition exampleVoxel :: "real \<Rightarrow> real \<Rightarrow> real \<Rightarrow> TsdfVoxel" where
  "exampleVoxel d w i =
     \<lparr>distance = d, weight = w, interestingness = i, interesting_distance = 255,
      in_queue = False, is_observed = False\<rparr>"

definition exampleCamera :: SensorParamsBase where
  "exampleCamera =
     \<lparr>min_range = 1 / 10, max_range = 4, fov = (1, 1), resolution = (1 / 2, 1 / 2),
      height = 0, width = 0, frustum_endpoints = [], frustum_endpoints_B = []\<rparr>"

text \<open>The example camera after \<^verbatim>\<open>initialize\<close>: two rows of two end points.\<close>

definition exampleEndpoints :: "Point list" where
  "exampleEndpoints =
     [(4, 4 * tan (- (1 / 2)), 4 * tan (- (1 / 2))), (4, 4 * tan 0, 4 * tan (- (1 / 2))),
      (4, 4 * tan (- (1 / 2)), 4 * tan 0), (4, 4 * tan 0, 4 * tan 0)]"

definition exampleFrustum :: SensorParamsBase where
  "exampleFrustum =
     exampleCamera\<lparr>height := 2, width := 2, frustum_endpoints := exampleEndpoints,
       frustum_endpoints_B := exampleEndpoints\<rparr>"









definition exampleConfig :: Config where
  "exampleConfig =
     \<lparr>voxel_size = 1, area_factor = 0, decay_lambda = 1 / 2, decay_distance = 3,
      camera_param = exampleFrustum,
      camera_states = (\<lambda>row col. 0),
      rayCaster = (\<lambda>(ox, oy, oz) (ex, ey, ez). map (\<lambda>k. (k, 0, 0)) [\<lfloor>ox\<rfloor>..\<lfloor>ex\<rfloor>]),
      getCenterPointFromGridIndex =
        (\<lambda>(x, y, z) size.
           ((real_of_int x + 1 / 2) * size, (real_of_int y + 1 / 2) * size,
            (real_of_int z + 1 / 2) * size)),
      getFromGlobalIndex =
        (\<lambda>(x, y, z).
           [(x - 1, y, z), (x + 1, y, z), (x, y - 1, z), (x, y + 1, z), (x, y, z - 1),
            (x, y, z + 1)])\<rparr>"

text \<open>
  Two voxels without weight, then a voxel with weight whose distance is five voxel sizes
  below zero; the cell \<open>(3, 0, 0)\<close> is not allocated; behind it a voxel with weight whose
  distance is two voxel sizes.
\<close>

definition exampleServer :: TsdfServer where
  "exampleServer =
     \<lparr>sdf_layer =
        [(0, 0, 0) \<mapsto> exampleVoxel 0 0 2, (1, 0, 0) \<mapsto> exampleVoxel 0 0 3,
         (2, 0, 0) \<mapsto> exampleVoxel (- 5) 1 5, (4, 0, 0) \<mapsto> exampleVoxel 2 1 7],
      interesting_voxels = [],
      observed_voxels = []\<rparr>"

text \<open>The example configuration with a gain that decays with the distance.\<close>

definition decayConfig :: Config where
  "decayConfig = exampleConfig\<lparr>area_factor := 1\<rparr>"

text \<open>
  A trajectory library whose rows are all the same: the stored position has only a y
  component, which depends on the time step, and the stored yaw is \<open>- \<pi> / 2\<close>.
\<close>

definition exampleLibrary :: "nat \<Rightarrow> nat \<Rightarrow> real" where
  "exampleLibrary row col =
     (if col mod 6 = 1 then
        (if col div 6 = 2 \<or> col div 6 = 14 then 0
         else if col div 6 = 6 then - 1
         else if col div 6 = 10 then - 2
         else 1)
      else if col mod 6 = 5 then - (pi / 2)
      else 0)"

definition libraryConfig :: Config where
  "libraryConfig = exampleConfig\<lparr>camera_states := exampleLibrary\<rparr>"

text \<open>
  A seed in cell 0 with interestingness 1 and propagation distance 0, already in the queue,
  and three voxels without weight behind it; and the same map after the diffusion with decay
  factor 1/2 and cutoff 3.
\<close>

definition exampleSeeded :: TsdfServer where
  "exampleSeeded =
     \<lparr>sdf_layer =
        [(0, 0, 0) \<mapsto> (exampleVoxel 0 1 1)\<lparr>interesting_distance := 0, in_queue := True\<rparr>,
         (1, 0, 0) \<mapsto> exampleVoxel 0 0 0, (2, 0, 0) \<mapsto> exampleVoxel 0 0 0,
         (3, 0, 0) \<mapsto> exampleVoxel 0 0 0],
      interesting_voxels = [(0, 0, 0)],
      observed_voxels = []\<rparr>"

definition exampleDiffused :: TsdfServer where
  "exampleDiffused =
     \<lparr>sdf_layer =
        [(0, 0, 0) \<mapsto> (exampleVoxel 0 1 1)\<lparr>interesting_distance := 0, in_queue := True\<rparr>,
         (1, 0, 0) \<mapsto> (exampleVoxel 0 0 (1 / 2))\<lparr>interesting_distance := 1, in_queue := True\<rparr>,
         (2, 0, 0) \<mapsto> (exampleVoxel 0 0 (1 / 4))\<lparr>interesting_distance := 2, in_queue := True\<rparr>,
         (3, 0, 0) \<mapsto> (exampleVoxel 0 0 (1 / 8))\<lparr>interesting_distance := 3\<rparr>],
      interesting_voxels = [],
      observed_voxels = []\<rparr>"
section \<open>Properties\<close>

text \<open>The definitions of the concrete inputs, for evaluation.\<close>

lemmas example_defs =
  exampleConfig_def exampleServer_def exampleVoxel_def exampleCamera_def exampleFrustum_def
  exampleEndpoints_def initialCounters_def

subsection \<open>Steps of the ray loop\<close>

lemma rayLoop_absent:
  "sdf_layer s g = None \<Longrightarrow> rayLoop cfg p (g # gs) (c, s) = rayLoop cfg p gs (c, s)"
  by (simp add: checkUnknownStatus_def)

lemma rayLoop_unknown:
  "sdf_layer s g = Some v \<Longrightarrow> weight v < 1 / 10 ^ 6 \<Longrightarrow>
   rayLoop cfg p (g # gs) (c, s) =
     (if is_observed v then rayLoop cfg p gs (c, s)
      else rayLoop cfg p gs
             (c\<lparr>num_unknown := num_unknown c + 1,
                interestingness_sum := interestingness_sum c + decayedInterestingness cfg p g v\<rparr>,
              markObserved s g v))"
  by (simp add: checkUnknownStatus_def)

lemma rayLoop_free:
  "sdf_layer s g = Some v \<Longrightarrow> \<not> weight v < 1 / 10 ^ 6 \<Longrightarrow> distance v > distance_thres cfg \<Longrightarrow>
   rayLoop cfg p (g # gs) (c, s) =
     (if is_observed v then rayLoop cfg p gs (c, s)
      else rayLoop cfg p gs (c\<lparr>num_free := num_free c + 1\<rparr>, markObserved s g v))"
  by (simp add: checkUnknownStatus_def)

lemma rayLoop_occupied:
  "sdf_layer s g = Some v \<Longrightarrow> \<not> weight v < 1 / 10 ^ 6 \<Longrightarrow> \<not> distance v > distance_thres cfg \<Longrightarrow>
   rayLoop cfg p (g # gs) (c, s) =
     (if is_observed v then (c, s)
      else (c\<lparr>num_occupied := num_occupied c + 1,
               interestingness_sum := interestingness_sum c + decayedInterestingness cfg p g v\<rparr>,
            markObserved s g v))"
  by (simp add: checkUnknownStatus_def)

lemma voxelStatus_None: "voxelStatus cfg None = kUnknown"
  by (simp add: voxelStatus_def checkUnknownStatus_def)

lemma voxelStatus_Some:
  "voxelStatus cfg (Some v) =
     (if weight v < 1 / 10 ^ 6 then kUnknown
      else if distance v \<le> voxel_size cfg + 1 / 10 ^ 6 then kOccupied else kFree)"
  by (simp add: voxelStatus_def checkUnknownStatus_def distance_thres_def)

lemma rayLoop_status:
  "rayLoop cfg p (g # gs) (c, s) =
    (case sdf_layer s g of
       None \<Rightarrow> rayLoop cfg p gs (c, s)
     | Some v \<Rightarrow>
        (case voxelStatus cfg (Some v) of
           kUnknown \<Rightarrow>
             if is_observed v then rayLoop cfg p gs (c, s)
             else rayLoop cfg p gs
                   (c\<lparr>num_unknown := num_unknown c + 1,
                      interestingness_sum := interestingness_sum c + decayedInterestingness cfg p g v\<rparr>,
                    markObserved s g v)
         | kFree \<Rightarrow>
             if is_observed v then rayLoop cfg p gs (c, s)
             else rayLoop cfg p gs (c\<lparr>num_free := num_free c + 1\<rparr>, markObserved s g v)
         | kOccupied \<Rightarrow>
             if is_observed v then (c, s)
             else (c\<lparr>num_occupied := num_occupied c + 1,
                     interestingness_sum := interestingness_sum c + decayedInterestingness cfg p g v\<rparr>,
                   markObserved s g v)))"
  by (simp add: voxelStatus_def checkUnknownStatus_def split: option.splits)

subsection \<open>The effect of a scan on the server\<close>

lemma markedLayer_Nil: "markedLayer layer [] = layer"
  by (simp add: markedLayer_def)

lemma scanEffect_refl: "scanEffect s [] s"
  by (simp add: scanEffect_def markedLayer_Nil)

lemma scanEffect_mark:
  assumes v: "sdf_layer s g = Some v" "\<not> is_observed v"
    and eff: "scanEffect (markObserved s g v) pushed s'"
  shows "scanEffect s (g # pushed) s'"
proof -
  let ?s1 = "markObserved s g v"
  have l1: "sdf_layer ?s1 = (sdf_layer s)(g \<mapsto> v\<lparr>is_observed := True\<rparr>)"
    by (simp add: markObserved_def)
  have notin: "g \<notin> set pushed"
  proof
    assume "g \<in> set pushed"
    with eff obtain w where "sdf_layer ?s1 g = Some w" "\<not> is_observed w"
      unfolding scanEffect_def by blast
    with l1 show False by auto
  qed
  have unobs: "\<forall>i\<in>set (g # pushed). \<exists>w. sdf_layer s i = Some w \<and> \<not> is_observed w"
  proof
    fix i assume i: "i \<in> set (g # pushed)"
    show "\<exists>w. sdf_layer s i = Some w \<and> \<not> is_observed w"
    proof (cases "i = g")
      case True with v show ?thesis by simp
    next
      case False
      with i have "i \<in> set pushed" by simp
      with eff obtain w where "sdf_layer ?s1 i = Some w" "\<not> is_observed w"
        unfolding scanEffect_def by blast
      with False l1 show ?thesis by simp
    qed
  qed
  have layer: "markedLayer (sdf_layer ?s1) pushed = markedLayer (sdf_layer s) (g # pushed)"
    using notin v by (auto simp: markedLayer_def l1 fun_eq_iff)
  have "s' = ?s1\<lparr>sdf_layer := markedLayer (sdf_layer ?s1) pushed,
            observed_voxels := observed_voxels ?s1 @ pushed\<rparr>"
    using eff unfolding scanEffect_def by blast
  then have "s' = s\<lparr>sdf_layer := markedLayer (sdf_layer s) (g # pushed),
            observed_voxels := observed_voxels s @ (g # pushed)\<rparr>"
    unfolding layer by (simp add: markObserved_def)
  moreover have "distinct (g # pushed)"
    using notin eff unfolding scanEffect_def by simp
  ultimately show ?thesis
    using unobs unfolding scanEffect_def by blast
qed

lemma rayLoop_effect: "\<exists>pushed. scanEffect s pushed (snd (rayLoop cfg p ray (c, s)))"
proof (induction ray arbitrary: c s)
  case Nil
  show ?case using scanEffect_refl by auto
next
  case (Cons g ray)
  show ?case
  proof (cases "sdf_layer s g")
    case None
    then show ?thesis using Cons.IH [of s c] by (simp add: rayLoop_absent del: rayLoop.simps(2))
  next
    case (Some v)
    show ?thesis
    proof (cases "is_observed v")
      case True
      then show ?thesis
        using Some Cons.IH [of s c] scanEffect_refl [of s]
        by (auto simp add: rayLoop_status simp del: rayLoop.simps split: VoxelStatus.splits)
    next
      case False
      have one: "scanEffect s [g] (markObserved s g v)"
        using scanEffect_mark [OF Some False scanEffect_refl] .
      show ?thesis
      proof (cases "voxelStatus cfg (Some v)")
        case kUnknown
        obtain pushed where "scanEffect (markObserved s g v) pushed
            (snd (rayLoop cfg p ray (c\<lparr>num_unknown := num_unknown c + 1,
                      interestingness_sum := interestingness_sum c + decayedInterestingness cfg p g v\<rparr>, markObserved s g v)))"
          using Cons.IH by blast
        then show ?thesis
          using Some False kUnknown scanEffect_mark [OF Some False]
          by (auto simp add: rayLoop_status simp del: rayLoop.simps(2))
      next
        case kFree
        obtain pushed where "scanEffect (markObserved s g v) pushed
            (snd (rayLoop cfg p ray (c\<lparr>num_free := num_free c + 1\<rparr>, markObserved s g v)))"
          using Cons.IH by blast
        then show ?thesis
          using Some False kFree scanEffect_mark [OF Some False]
          by (auto simp add: rayLoop_status simp del: rayLoop.simps(2))
      next
        case kOccupied
        then show ?thesis
          using Some False one
          by (auto simp add: rayLoop_status simp del: rayLoop.simps(2))
      qed
    qed
  qed
qed

lemma scanEffect_trans:
  assumes a: "scanEffect s p1 s1" and b: "scanEffect s1 p2 s2"
  shows "scanEffect s (p1 @ p2) s2"
  using b a
proof (induction p1 arbitrary: s)
  case Nil
  then show ?case by (simp add: scanEffect_def markedLayer_Nil)
next
  case (Cons g p1)
  from Cons.prems(2) obtain v where v: "sdf_layer s g = Some v" "\<not> is_observed v"
    unfolding scanEffect_def by auto
  have "scanEffect (markObserved s g v) p1 s1"
  proof -
    have g: "g \<notin> set p1" and d: "distinct p1" using Cons.prems(2) unfolding scanEffect_def by auto
    have l: "markedLayer (sdf_layer (markObserved s g v)) p1 = markedLayer (sdf_layer s) (g # p1)"
      using g v by (auto simp: markedLayer_def markObserved_def fun_eq_iff)
    have "s1 = s\<lparr>sdf_layer := markedLayer (sdf_layer s) (g # p1),
            observed_voxels := observed_voxels s @ (g # p1)\<rparr>"
      using Cons.prems(2) unfolding scanEffect_def by blast
    then have "s1 = (markObserved s g v)\<lparr>sdf_layer := markedLayer (sdf_layer (markObserved s g v)) p1,
            observed_voxels := observed_voxels (markObserved s g v) @ p1\<rparr>"
      unfolding l by (simp add: markObserved_def)
    moreover have "\<forall>i\<in>set p1. \<exists>w. sdf_layer (markObserved s g v) i = Some w \<and> \<not> is_observed w"
      using Cons.prems(2) g unfolding scanEffect_def by (auto simp: markObserved_def)
    ultimately show ?thesis using d unfolding scanEffect_def by blast
  qed
  from Cons.IH [OF Cons.prems(1) this] have "scanEffect (markObserved s g v) (p1 @ p2) s2" .
  from scanEffect_mark [OF v this] show ?case by simp
qed

lemma endpointLoop_effect:
  "\<exists>pushed. scanEffect s pushed (snd (endpointLoop cfg p eps (c, s)))"
proof (induction eps arbitrary: c s)
  case Nil
  show ?case using scanEffect_refl by auto
next
  case (Cons e eps)
  obtain c1 s1 where r: "rayLoop cfg p (rayCaster cfg p e) (c, s) = (c1, s1)"
    by (cases "rayLoop cfg p (rayCaster cfg p e) (c, s)")
  obtain p1 where p1: "scanEffect s p1 s1"
    using rayLoop_effect [of s cfg p "rayCaster cfg p e" c] r by auto
  obtain p2 where p2: "scanEffect s1 p2 (snd (endpointLoop cfg p eps (c1, s1)))"
    using Cons.IH by blast
  from scanEffect_trans [OF p1 p2] show ?case
    by (auto simp: r)
qed

lemma drainLoop_ok:
  "set q \<subseteq> dom layer \<Longrightarrow>
   drainLoop q layer =
     Inr (\<lambda>i. if i \<in> set q then map_option (\<lambda>v. v\<lparr>is_observed := False\<rparr>) (layer i) else layer i)"
proof (induction q arbitrary: layer)
  case Nil
  then show ?case by simp
next
  case (Cons g q)
  then obtain v where v: "layer g = Some v" by auto
  have "set q \<subseteq> dom (layer(g \<mapsto> v\<lparr>is_observed := False\<rparr>))"
    using Cons.prems by auto
  from Cons.IH [OF this]
  have "drainLoop q (layer(g \<mapsto> v\<lparr>is_observed := False\<rparr>)) =
     Inr (\<lambda>i. if i \<in> set q
          then map_option (\<lambda>v. v\<lparr>is_observed := False\<rparr>) ((layer(g \<mapsto> v\<lparr>is_observed := False\<rparr>)) i)
          else (layer(g \<mapsto> v\<lparr>is_observed := False\<rparr>)) i)" .
  moreover have "(\<lambda>i. if i \<in> set q
          then map_option (\<lambda>v. v\<lparr>is_observed := False\<rparr>) ((layer(g \<mapsto> v\<lparr>is_observed := False\<rparr>)) i)
          else (layer(g \<mapsto> v\<lparr>is_observed := False\<rparr>)) i)
     = (\<lambda>i. if i \<in> set (g # q) then map_option (\<lambda>v. v\<lparr>is_observed := False\<rparr>) (layer i) else layer i)"
    using v by (auto simp: fun_eq_iff)
  ultimately show ?case using v by simp
qed

lemma drain_restores:
  assumes "scanEffect s pushed s'" and "observed_voxels s = []"
  shows "resetObservedVoxels s' = Inr s"
proof -
  have s': "s' = s\<lparr>sdf_layer := markedLayer (sdf_layer s) pushed, observed_voxels := pushed\<rparr>"
    using assms unfolding scanEffect_def by simp
  have un: "\<forall>i\<in>set pushed. \<exists>v. sdf_layer s i = Some v \<and> \<not> is_observed v"
    using assms unfolding scanEffect_def by simp
  have sub: "set (observed_voxels s') \<subseteq> dom (sdf_layer s')"
    using un by (auto simp: s' markedLayer_def)
  have restore: "(\<lambda>i. if i \<in> set pushed
        then map_option (\<lambda>v. v\<lparr>is_observed := False\<rparr>) (markedLayer (sdf_layer s) pushed i)
        else markedLayer (sdf_layer s) pushed i) = sdf_layer s"
  proof
    fix i
    show "(if i \<in> set pushed
        then map_option (\<lambda>v. v\<lparr>is_observed := False\<rparr>) (markedLayer (sdf_layer s) pushed i)
        else markedLayer (sdf_layer s) pushed i) = sdf_layer s i"
    proof (cases "i \<in> set pushed")
      case True
      with un obtain v where "sdf_layer s i = Some v" "\<not> is_observed v" by blast
      then show ?thesis using True by (simp add: markedLayer_def)
    next
      case False
      then show ?thesis by (simp add: markedLayer_def)
    qed
  qed
  have l: "sdf_layer s' = markedLayer (sdf_layer s) pushed" and o: "observed_voxels s' = pushed"
    by (simp_all add: s')
  have "resetObservedVoxels s' = Inr (s'\<lparr>sdf_layer := sdf_layer s, observed_voxels := []\<rparr>)"
  proof -
    have "drainLoop (observed_voxels s') (sdf_layer s') = Inr (sdf_layer s)"
      using drainLoop_ok [OF sub] unfolding o l restore .
    then show ?thesis by (simp add: resetObservedVoxels_def)
  qed
  also have "s'\<lparr>sdf_layer := sdf_layer s, observed_voxels := []\<rparr> = s"
    using assms(2) by (simp add: s')
  finally show ?thesis .
qed

lemma voxelStatus_markObserved:
  "sdf_layer s g = Some v \<Longrightarrow>
   voxelStatus cfg (sdf_layer (markObserved s g v) i) = voxelStatus cfg (sdf_layer s i)"
  by (simp add: markObserved_def voxelStatus_def checkUnknownStatus_def)

lemma rayLoop_until_occupied:
  assumes "\<forall>i\<in>set pre. voxelStatus cfg (sdf_layer s i) \<noteq> kOccupied"
    and "sdf_layer s g = Some v" and "voxelStatus cfg (Some v) = kOccupied"
  shows "rayLoop cfg p (pre @ g # post) (c, s) =
     (case rayLoop cfg p pre (c, s) of
        (c', s') \<Rightarrow>
          if is_observed v then (c', s')
          else (c'\<lparr>num_occupied := num_occupied c' + 1,
                  interestingness_sum :=
                    interestingness_sum c' + decayedInterestingness cfg p g v\<rparr>,
                markObserved s' g v))"
  using assms
proof (induction pre arbitrary: c s)
  case Nil
  then show ?case by (simp add: rayLoop_status del: rayLoop.simps(2))
next
  case (Cons i pre)
  have rest: "\<forall>j\<in>set pre. voxelStatus cfg (sdf_layer s j) \<noteq> kOccupied"
    using Cons.prems(1) by simp
  have i: "voxelStatus cfg (sdf_layer s i) \<noteq> kOccupied"
    using Cons.prems(1) by simp
  show ?case
  proof (cases "sdf_layer s i")
    case None
    then show ?thesis
      using Cons.IH [OF rest Cons.prems(2,3)] by (simp add: rayLoop_absent del: rayLoop.simps(2))
  next
    case (Some vi)
    have ne: "g \<noteq> i" using Some i Cons.prems(2,3) by auto
    have rest': "\<forall>j\<in>set pre. voxelStatus cfg (sdf_layer (markObserved s i vi) j) \<noteq> kOccupied"
      using rest by (simp add: voxelStatus_markObserved [OF Some])
    have g': "sdf_layer (markObserved s i vi) g = Some v"
      using ne Cons.prems(2) by (simp add: markObserved_def)
    show ?thesis
      using Some i Cons.IH [OF rest Cons.prems(2,3)] Cons.IH [OF rest' g' Cons.prems(3)]
      by (cases "voxelStatus cfg (Some vi)")
         (simp_all add: rayLoop_status del: rayLoop.simps(2))
  qed
qed

lemma rayLoop_unknown_run:
  assumes "distinct (us @ [g])"
    and "\<forall>i\<in>set us. \<exists>v. sdf_layer s i = Some v \<and> weight v < 1 / 10 ^ 6 \<and> \<not> is_observed v"
    and "sdf_layer s g = Some vo" and "voxelStatus cfg (Some vo) = kOccupied"
    and "\<not> is_observed vo"
  shows "fst (rayLoop cfg p (us @ g # rest) (c, s)) =
     c\<lparr>num_unknown := num_unknown c + of_nat (length us),
       num_occupied := num_occupied c + 1,
       interestingness_sum :=
         interestingness_sum c
           + (\<Sum>i\<leftarrow>us @ [g]. decayedInterestingness cfg p i (the (sdf_layer s i)))\<rparr>"
  using assms
proof (induction us arbitrary: c s)
  case Nil
  then show ?case by (simp add: rayLoop_status del: rayLoop.simps(2))
next
  case (Cons u us)
  from Cons.prems(2) obtain v where
    v: "sdf_layer s u = Some v" "weight v < 1 / 10 ^ 6" "\<not> is_observed v"
    by auto
  let ?s1 = "markObserved s u v"
  have same: "\<And>j. j \<noteq> u \<Longrightarrow> sdf_layer ?s1 j = sdf_layer s j"
    by (simp add: markObserved_def)
  have d: "distinct (us @ [g])" and nu: "u \<notin> set us" "g \<noteq> u"
    using Cons.prems(1) by auto
  have us: "\<forall>i\<in>set us. \<exists>v. sdf_layer ?s1 i = Some v \<and> weight v < 1 / 10 ^ 6 \<and> \<not> is_observed v"
  proof
    fix i assume i: "i \<in> set us"
    then have "i \<noteq> u" using nu by auto
    moreover from Cons.prems(2) i obtain w where
      "sdf_layer s i = Some w \<and> weight w < 1 / 10 ^ 6 \<and> \<not> is_observed w" by auto
    ultimately show "\<exists>v. sdf_layer ?s1 i = Some v \<and> weight v < 1 / 10 ^ 6 \<and> \<not> is_observed v"
      using same by metis
  qed
  have g: "sdf_layer ?s1 g = Some vo" using Cons.prems(3) nu same by simp
  have sums: "(\<Sum>i\<leftarrow>us @ [g]. decayedInterestingness cfg p i (the (sdf_layer ?s1 i)))
     = (\<Sum>i\<leftarrow>us @ [g]. decayedInterestingness cfg p i (the (sdf_layer s i)))"
  proof -
    have eq: "sdf_layer ?s1 i = sdf_layer s i" if "i \<in> set (us @ [g])" for i
    proof -
      from that nu have "i \<noteq> u" by auto
      then show ?thesis by (rule same)
    qed
    show ?thesis
      by (rule arg_cong [where f = sum_list], rule map_cong [OF refl]) (simp only: eq)
  qed
  let ?c1 = "c\<lparr>num_unknown := num_unknown c + 1,
                interestingness_sum := interestingness_sum c + decayedInterestingness cfg p u v\<rparr>"
  have step: "rayLoop cfg p ((u # us) @ g # rest) (c, s) = rayLoop cfg p (us @ g # rest) (?c1, ?s1)"
    using v by (simp add: rayLoop_unknown del: rayLoop.simps(2))
  have ih: "fst (rayLoop cfg p (us @ g # rest) (?c1, ?s1)) =
     ?c1\<lparr>num_unknown := num_unknown ?c1 + of_nat (length us),
       num_occupied := num_occupied ?c1 + 1,
       interestingness_sum :=
         interestingness_sum ?c1
           + (\<Sum>i\<leftarrow>us @ [g]. decayedInterestingness cfg p i (the (sdf_layer s i)))\<rparr>"
    using Cons.IH [OF d us g Cons.prems(4,5), of ?c1] unfolding sums .
  show ?case
    unfolding step ih using v(1) by (simp add: add.assoc)
qed

lemma getScanStatus_single:
  "getScanStatus cfg s pos [e] =
     (let c = fst (rayLoop cfg pos (rayCaster cfg pos e) (initialCounters, s))
      in (interestingness_sum c, (num_unknown c, num_free c, num_occupied c),
          snd (rayLoop cfg pos (rayCaster cfg pos e) (initialCounters, s))))"
  by (simp add: getScanStatus_def split: prod.splits)

lemma markedLayer_Cons:
  assumes "layer u = Some v"
  shows "markedLayer (layer(u \<mapsto> v\<lparr>is_observed := True\<rparr>)) xs = markedLayer layer (u # xs)"
  using assms by (auto simp: markedLayer_def fun_eq_iff)

lemma rayLoop_unknown_run_server:
  assumes "distinct (us @ [g])"
    and "\<forall>i\<in>set us. \<exists>v. sdf_layer s i = Some v \<and> weight v < 1 / 10 ^ 6 \<and> \<not> is_observed v"
    and "sdf_layer s g = Some vo" and "voxelStatus cfg (Some vo) = kOccupied"
    and "\<not> is_observed vo"
  shows "snd (rayLoop cfg p (us @ g # rest) (c, s)) =
     s\<lparr>sdf_layer := markedLayer (sdf_layer s) (us @ [g]),
       observed_voxels := observed_voxels s @ us @ [g]\<rparr>"
  using assms
proof (induction us arbitrary: c s)
  case Nil
  then have "markedLayer (sdf_layer s) [g] = (sdf_layer s)(g \<mapsto> vo\<lparr>is_observed := True\<rparr>)"
    by (auto simp: markedLayer_def fun_eq_iff)
  note m = this
  have r: "snd (rayLoop cfg p (g # rest) (c, s)) =
      s\<lparr>sdf_layer := (sdf_layer s)(g \<mapsto> vo\<lparr>is_observed := True\<rparr>),
        observed_voxels := observed_voxels s @ [g]\<rparr>"
    using Nil by (simp add: rayLoop_status markObserved_def del: rayLoop.simps(2))
  show ?case
    using r by (simp only: append_Nil m)
next
  case (Cons u us)
  from Cons.prems(2) obtain v where
    v: "sdf_layer s u = Some v" "weight v < 1 / 10 ^ 6" "\<not> is_observed v"
    by auto
  let ?s1 = "markObserved s u v"
  have same: "\<And>j. j \<noteq> u \<Longrightarrow> sdf_layer ?s1 j = sdf_layer s j"
    by (simp add: markObserved_def)
  have d: "distinct (us @ [g])" and nu: "u \<notin> set us" "g \<noteq> u"
    using Cons.prems(1) by auto
  have us: "\<forall>i\<in>set us. \<exists>v. sdf_layer ?s1 i = Some v \<and> weight v < 1 / 10 ^ 6 \<and> \<not> is_observed v"
  proof
    fix i assume i: "i \<in> set us"
    then have "i \<noteq> u" using nu by auto
    moreover from Cons.prems(2) i obtain w where
      "sdf_layer s i = Some w \<and> weight w < 1 / 10 ^ 6 \<and> \<not> is_observed w" by auto
    ultimately show "\<exists>v. sdf_layer ?s1 i = Some v \<and> weight v < 1 / 10 ^ 6 \<and> \<not> is_observed v"
      using same by metis
  qed
  have g: "sdf_layer ?s1 g = Some vo" using Cons.prems(3) nu same by simp
  let ?c1 = "c\<lparr>num_unknown := num_unknown c + 1,
                interestingness_sum := interestingness_sum c + decayedInterestingness cfg p u v\<rparr>"
  have step: "rayLoop cfg p ((u # us) @ g # rest) (c, s) = rayLoop cfg p (us @ g # rest) (?c1, ?s1)"
    using v by (simp add: rayLoop_unknown del: rayLoop.simps(2))
  have l: "markedLayer (sdf_layer ?s1) (us @ [g]) = markedLayer (sdf_layer s) ((u # us) @ [g])"
    using markedLayer_Cons [where layer = "sdf_layer s" and u = u and v = v and xs = "us @ [g]"] v(1)
    by (simp add: markObserved_def)
  show ?case
    unfolding step Cons.IH [OF d us g Cons.prems(4,5)] l
    by (simp add: markObserved_def)
qed

text \<open>The definitions of the example with a decaying gain, for evaluation.\<close>

lemmas decay_defs = decayConfig_def example_defs

subsection \<open>An Occupied voxel ends the ray\<close>

text \<open>
  Claim C2. On every ray, when the indices \<open>pre\<close> traversed so far hold no Occupied voxel
  and the next index \<open>g\<close> holds an Occupied voxel \<open>v\<close>, the ray loop ends at \<open>g\<close>: its result
  is the result of the loop over \<open>pre\<close>, with, if the voxel was not yet observed, the
  observed flag of the voxel set in the layer, \<open>g\<close> appended to the queue of observed voxels,
  the occupied counter incremented and \<open>interestingness v \<cdot> exp (- area_factor \<cdot> z2)\<close> added
  to the gain, where \<open>z2\<close> is the squared distance from the centre of the voxel to the origin
  of the scan. The indices \<open>post\<close> behind \<open>g\<close> do not occur in the result: they are neither
  traversed nor counted. The statement holds from any counters and any server, hence for
  every ray of \<^verbatim>\<open>getScanStatus\<close>.
\<close>

theorem occupied_voxel_ends_ray:
  assumes "\<forall>i\<in>set pre. voxelStatus cfg (sdf_layer s i) \<noteq> kOccupied"
    and "sdf_layer s g = Some v" and "voxelStatus cfg (Some v) = kOccupied"
  shows "rayLoop cfg (px, py, pz) (pre @ g # post) (c, s) =
     (case rayLoop cfg (px, py, pz) pre (c, s) of
        (c', s') \<Rightarrow>
          if is_observed v then (c', s')
          else (c'\<lparr>num_occupied := num_occupied c' + 1,
                  interestingness_sum :=
                    interestingness_sum c' +
                      (case getCenterPointFromGridIndex cfg g (voxel_size cfg) of
                         (cx, cy, cz) \<Rightarrow>
                           interestingness v *
                             exp (- area_factor cfg *
                                    ((cx - px) * (cx - px) + (cy - py) * (cy - py)
                                       + (cz - pz) * (cz - pz))))\<rparr>,
                s'\<lparr>sdf_layer := (sdf_layer s')(g \<mapsto> v\<lparr>is_observed := True\<rparr>),
                   observed_voxels := observed_voxels s' @ [g]\<rparr>))"
  unfolding rayLoop_until_occupied [OF assms]
  by (simp add: decayedInterestingness_def markObserved_def Let_def split: prod.splits)

text \<open>
  The theorem of claim C2 on the example map with area factor 1, from the centre of cell 0:
  the ray ends at cell 2, whose centre is at distance 2, and the voxel with weight in cell 4
  behind it is not counted as free and not pushed.
\<close>

theorem occupied_voxel_ends_ray_witness:
  "voxelStatus decayConfig (sdf_layer exampleServer (0, 0, 0)) \<noteq> kOccupied \<and>
   voxelStatus decayConfig (sdf_layer exampleServer (1, 0, 0)) \<noteq> kOccupied \<and>
   sdf_layer exampleServer (2, 0, 0) = Some (exampleVoxel (- 5) 1 5) \<and>
   voxelStatus decayConfig (Some (exampleVoxel (- 5) 1 5)) = kOccupied \<and>
   rayLoop decayConfig (1 / 2, 1 / 2, 1 / 2)
      ([(0, 0, 0), (1, 0, 0)] @ (2, 0, 0) # [(3, 0, 0), (4, 0, 0)]) (initialCounters, exampleServer)
     = (\<lparr>num_unknown = 2, num_free = 0, num_occupied = 1,
          interestingness_sum = 2 + 3 * exp (- 1) + 5 * exp (- 4)\<rparr>,
        exampleServer
          \<lparr>sdf_layer := (sdf_layer exampleServer)
             ((0, 0, 0) \<mapsto> (exampleVoxel 0 0 2)\<lparr>is_observed := True\<rparr>,
              (1, 0, 0) \<mapsto> (exampleVoxel 0 0 3)\<lparr>is_observed := True\<rparr>,
              (2, 0, 0) \<mapsto> (exampleVoxel (- 5) 1 5)\<lparr>is_observed := True\<rparr>),
           observed_voxels := [(0, 0, 0), (1, 0, 0), (2, 0, 0)]\<rparr>)"
proof -
  have h1: "\<forall>i\<in>set [(0, 0, 0), (1, 0, 0)].
      voxelStatus decayConfig (sdf_layer exampleServer i) \<noteq> kOccupied"
    by (simp add: decay_defs voxelStatus_def checkUnknownStatus_def)
  have h2: "sdf_layer exampleServer (2, 0, 0) = Some (exampleVoxel (- 5) 1 5)"
    by (simp add: exampleServer_def)
  have h3: "voxelStatus decayConfig (Some (exampleVoxel (- 5) 1 5)) = kOccupied"
    by (simp add: decay_defs voxelStatus_def checkUnknownStatus_def distance_thres_def)
  have pre: "rayLoop decayConfig (1 / 2, 1 / 2, 1 / 2) [(0, 0, 0), (1, 0, 0)]
        (initialCounters, exampleServer)
     = (\<lparr>num_unknown = 2, num_free = 0, num_occupied = 0, interestingness_sum = 2 + 3 * exp (- 1)\<rparr>,
        exampleServer
          \<lparr>sdf_layer := (sdf_layer exampleServer)
             ((0, 0, 0) \<mapsto> (exampleVoxel 0 0 2)\<lparr>is_observed := True\<rparr>,
              (1, 0, 0) \<mapsto> (exampleVoxel 0 0 3)\<lparr>is_observed := True\<rparr>),
           observed_voxels := [(0, 0, 0), (1, 0, 0)]\<rparr>)"
    by (simp add: decay_defs checkUnknownStatus_def decayedInterestingness_def markObserved_def)
  have h1': "voxelStatus decayConfig (sdf_layer exampleServer (0, 0, 0)) \<noteq> kOccupied \<and>
      voxelStatus decayConfig (sdf_layer exampleServer (1, 0, 0)) \<noteq> kOccupied"
    using h1 by simp
  have "rayLoop decayConfig (1 / 2, 1 / 2, 1 / 2)
      ([(0, 0, 0), (1, 0, 0)] @ (2, 0, 0) # [(3, 0, 0), (4, 0, 0)]) (initialCounters, exampleServer)
     = (\<lparr>num_unknown = 2, num_free = 0, num_occupied = 1,
          interestingness_sum = 2 + 3 * exp (- 1) + 5 * exp (- 4)\<rparr>,
        exampleServer
          \<lparr>sdf_layer := (sdf_layer exampleServer)
             ((0, 0, 0) \<mapsto> (exampleVoxel 0 0 2)\<lparr>is_observed := True\<rparr>,
              (1, 0, 0) \<mapsto> (exampleVoxel 0 0 3)\<lparr>is_observed := True\<rparr>,
              (2, 0, 0) \<mapsto> (exampleVoxel (- 5) 1 5)\<lparr>is_observed := True\<rparr>),
           observed_voxels := [(0, 0, 0), (1, 0, 0), (2, 0, 0)]\<rparr>)"
    unfolding occupied_voxel_ends_ray [OF h1 h2 h3] pre
    by (simp add: decay_defs)
  then show ?thesis
    using h1' h2 h3 by blast
qed

subsection \<open>Unknown voxels on a ray\<close>

text \<open>
  Claim C1, as the code has it. A traversed index whose voxel is not allocated is skipped:
  nothing is marked, counted or added, and the ray goes on. A traversed index whose voxel
  \<open>v\<close> is allocated with a weight below \<open>10\<^sup>-\<^sup>6\<close> is, unless its observed flag is already
  set, marked observed in the layer and pushed on the queue of observed voxels, the unknown
  counter is incremented and \<open>interestingness v \<cdot> exp (- area_factor \<cdot> z2)\<close> is added to the
  running gain, where \<open>z2\<close> is the squared distance from the centre of the voxel to the origin
  of the scan; in both cases the ray goes on with the next index. For a single ray whose
  indices are distinct and start with \<open>N\<close> allocated, not yet observed voxels of weight below
  \<open>10\<^sup>-\<^sup>6\<close> followed by a not yet observed Occupied voxel, \<^verbatim>\<open>getScanStatus\<close> returns the
  counters \<open>(N, 0, 1)\<close> (the 32-bit counter holds \<open>N\<close> modulo \<open>2\<^sup>3\<^sup>2\<close>), as gain the sum of
  these terms over the \<open>N + 1\<close> voxels, and the server with exactly these voxels marked and
  pushed in the order of the ray.
\<close>

theorem unknown_voxels_counted:
  "(sdf_layer s a = None \<longrightarrow>
      rayLoop cfg (px, py, pz) (a # gs) (c, s) = rayLoop cfg (px, py, pz) gs (c, s)) \<and>
   (sdf_layer s u = Some v \<and> weight v < 1 / 10 ^ 6 \<longrightarrow>
      rayLoop cfg (px, py, pz) (u # gs) (c, s) =
        (if is_observed v then rayLoop cfg (px, py, pz) gs (c, s)
         else rayLoop cfg (px, py, pz) gs
                (c\<lparr>num_unknown := num_unknown c + 1,
                   interestingness_sum :=
                     interestingness_sum c +
                       (case getCenterPointFromGridIndex cfg u (voxel_size cfg) of
                          (cx, cy, cz) \<Rightarrow>
                            interestingness v *
                              exp (- area_factor cfg *
                                     ((cx - px) * (cx - px) + (cy - py) * (cy - py)
                                        + (cz - pz) * (cz - pz))))\<rparr>,
                 s\<lparr>sdf_layer := (sdf_layer s)(u \<mapsto> v\<lparr>is_observed := True\<rparr>),
                   observed_voxels := observed_voxels s @ [u]\<rparr>))) \<and>
   (rayCaster cfg (px, py, pz) e = us @ g # rest \<and> distinct (us @ [g]) \<and>
    (\<forall>i\<in>set us. \<exists>w. sdf_layer s i = Some w \<and> weight w < 1 / 10 ^ 6 \<and> \<not> is_observed w) \<and>
    sdf_layer s g = Some vo \<and> voxelStatus cfg (Some vo) = kOccupied \<and> \<not> is_observed vo \<longrightarrow>
      getScanStatus cfg s (px, py, pz) [e] =
        (\<Sum>i\<leftarrow>us @ [g].
           case getCenterPointFromGridIndex cfg i (voxel_size cfg) of
             (cx, cy, cz) \<Rightarrow>
               interestingness (the (sdf_layer s i)) *
                 exp (- area_factor cfg *
                        ((cx - px) * (cx - px) + (cy - py) * (cy - py) + (cz - pz) * (cz - pz))),
         (of_nat (length us), 0, 1),
         s\<lparr>sdf_layer :=
               (\<lambda>i. if i \<in> set (us @ [g])
                    then map_option (\<lambda>w. w\<lparr>is_observed := True\<rparr>) (sdf_layer s i)
                    else sdf_layer s i),
             observed_voxels := observed_voxels s @ us @ [g]\<rparr>))"
proof (intro conjI impI)
  assume "sdf_layer s a = None"
  then show "rayLoop cfg (px, py, pz) (a # gs) (c, s) = rayLoop cfg (px, py, pz) gs (c, s)"
    by (rule rayLoop_absent)
next
  assume "sdf_layer s u = Some v \<and> weight v < 1 / 10 ^ 6"
  then have "rayLoop cfg (px, py, pz) (u # gs) (c, s) =
     (if is_observed v then rayLoop cfg (px, py, pz) gs (c, s)
      else rayLoop cfg (px, py, pz) gs
             (c\<lparr>num_unknown := num_unknown c + 1,
                interestingness_sum :=
                  interestingness_sum c + decayedInterestingness cfg (px, py, pz) u v\<rparr>,
              markObserved s u v))"
    using rayLoop_unknown [of s u v cfg "(px, py, pz)" gs c] by blast
  then show "rayLoop cfg (px, py, pz) (u # gs) (c, s) =
        (if is_observed v then rayLoop cfg (px, py, pz) gs (c, s)
         else rayLoop cfg (px, py, pz) gs
                (c\<lparr>num_unknown := num_unknown c + 1,
                   interestingness_sum :=
                     interestingness_sum c +
                       (case getCenterPointFromGridIndex cfg u (voxel_size cfg) of
                          (cx, cy, cz) \<Rightarrow>
                            interestingness v *
                              exp (- area_factor cfg *
                                     ((cx - px) * (cx - px) + (cy - py) * (cy - py)
                                        + (cz - pz) * (cz - pz))))\<rparr>,
                 s\<lparr>sdf_layer := (sdf_layer s)(u \<mapsto> v\<lparr>is_observed := True\<rparr>),
                   observed_voxels := observed_voxels s @ [u]\<rparr>))"
    by (simp add: decayedInterestingness_def markObserved_def Let_def split: prod.splits)
next
  assume h: "rayCaster cfg (px, py, pz) e = us @ g # rest \<and> distinct (us @ [g]) \<and>
    (\<forall>i\<in>set us. \<exists>w. sdf_layer s i = Some w \<and> weight w < 1 / 10 ^ 6 \<and> \<not> is_observed w) \<and>
    sdf_layer s g = Some vo \<and> voxelStatus cfg (Some vo) = kOccupied \<and> \<not> is_observed vo"
  then have run: "fst (rayLoop cfg (px, py, pz) (rayCaster cfg (px, py, pz) e) (initialCounters, s)) =
     initialCounters\<lparr>num_unknown := num_unknown initialCounters + of_nat (length us),
       num_occupied := num_occupied initialCounters + 1,
       interestingness_sum :=
         interestingness_sum initialCounters
           + (\<Sum>i\<leftarrow>us @ [g]. decayedInterestingness cfg (px, py, pz) i (the (sdf_layer s i)))\<rparr>"
    using rayLoop_unknown_run [where us = us and g = g and s = s and cfg = cfg and vo = vo
        and p = "(px, py, pz)" and rest = rest and c = initialCounters] by simp
  from h have server: "snd (rayLoop cfg (px, py, pz) (rayCaster cfg (px, py, pz) e) (initialCounters, s)) =
     s\<lparr>sdf_layer := markedLayer (sdf_layer s) (us @ [g]),
       observed_voxels := observed_voxels s @ us @ [g]\<rparr>"
    using rayLoop_unknown_run_server [where us = us and g = g and s = s and cfg = cfg and vo = vo
        and p = "(px, py, pz)" and rest = rest and c = initialCounters] by simp
  have dec: "decayedInterestingness cfg (px, py, pz) i w =
      (case getCenterPointFromGridIndex cfg i (voxel_size cfg) of
         (cx, cy, cz) \<Rightarrow>
           interestingness w *
             exp (- area_factor cfg *
                    ((cx - px) * (cx - px) + (cy - py) * (cy - py) + (cz - pz) * (cz - pz))))"
    for i w
    by (simp add: decayedInterestingness_def Let_def split: prod.splits)
  show "getScanStatus cfg s (px, py, pz) [e] =
        (\<Sum>i\<leftarrow>us @ [g].
           case getCenterPointFromGridIndex cfg i (voxel_size cfg) of
             (cx, cy, cz) \<Rightarrow>
               interestingness (the (sdf_layer s i)) *
                 exp (- area_factor cfg *
                        ((cx - px) * (cx - px) + (cy - py) * (cy - py) + (cz - pz) * (cz - pz))),
         (of_nat (length us), 0, 1),
         s\<lparr>sdf_layer :=
               (\<lambda>i. if i \<in> set (us @ [g])
                    then map_option (\<lambda>w. w\<lparr>is_observed := True\<rparr>) (sdf_layer s i)
                    else sdf_layer s i),
             observed_voxels := observed_voxels s @ us @ [g]\<rparr>)"
    unfolding getScanStatus_single Let_def run server dec
    by (simp add: initialCounters_def markedLayer_def)
qed

text \<open>
  The theorem of claim C1 on the example map with area factor 1, from the centre of cell 0:
  the ray to cell 3 crosses two voxels without weight at distances 0 and 1, the voxel with
  weight at distance 2 and the cell that is not allocated.
\<close>

theorem unknown_voxels_counted_witness:
  "sdf_layer exampleServer (3, 0, 0) = None \<and>
   rayLoop decayConfig (1 / 2, 1 / 2, 1 / 2) [(3, 0, 0)] (initialCounters, exampleServer)
     = (initialCounters, exampleServer) \<and>
   sdf_layer exampleServer (1, 0, 0) = Some (exampleVoxel 0 0 3) \<and>
   weight (exampleVoxel 0 0 3) < 1 / 10 ^ 6 \<and>
   rayLoop decayConfig (1 / 2, 1 / 2, 1 / 2) [(1, 0, 0)] (initialCounters, exampleServer)
     = (\<lparr>num_unknown = 1, num_free = 0, num_occupied = 0, interestingness_sum = 3 * exp (- 1)\<rparr>,
        exampleServer
          \<lparr>sdf_layer := (sdf_layer exampleServer)
             ((1, 0, 0) \<mapsto> (exampleVoxel 0 0 3)\<lparr>is_observed := True\<rparr>),
           observed_voxels := [(1, 0, 0)]\<rparr>) \<and>
   rayCaster decayConfig (1 / 2, 1 / 2, 1 / 2) (3, 0, 0)
     = [(0, 0, 0), (1, 0, 0)] @ (2, 0, 0) # [(3, 0, 0)] \<and>
   getScanStatus decayConfig exampleServer (1 / 2, 1 / 2, 1 / 2) [(3, 0, 0)] =
     (2 + 3 * exp (- 1) + 5 * exp (- 4), (2, 0, 1),
      exampleServer
        \<lparr>sdf_layer := (sdf_layer exampleServer)
           ((0, 0, 0) \<mapsto> (exampleVoxel 0 0 2)\<lparr>is_observed := True\<rparr>,
            (1, 0, 0) \<mapsto> (exampleVoxel 0 0 3)\<lparr>is_observed := True\<rparr>,
            (2, 0, 0) \<mapsto> (exampleVoxel (- 5) 1 5)\<lparr>is_observed := True\<rparr>),
         observed_voxels := [(0, 0, 0), (1, 0, 0), (2, 0, 0)]\<rparr>)"
proof -
  note T = unknown_voxels_counted [where s = exampleServer and cfg = decayConfig
      and a = "(3, 0, 0)" and gs = "[]" and c = initialCounters
      and px = "1 / 2" and py = "1 / 2" and pz = "1 / 2"
      and u = "(1, 0, 0)" and v = "exampleVoxel 0 0 3"
      and e = "(3, 0, 0)" and us = "[(0, 0, 0), (1, 0, 0)]"
      and g = "(2, 0, 0)" and rest = "[(3, 0, 0)]" and vo = "exampleVoxel (- 5) 1 5"]
  have a: "sdf_layer exampleServer (3, 0, 0) = None"
    by (simp add: exampleServer_def)
  have u: "sdf_layer exampleServer (1, 0, 0) = Some (exampleVoxel 0 0 3) \<and>
      weight (exampleVoxel 0 0 3) < 1 / 10 ^ 6"
    by (simp add: exampleServer_def exampleVoxel_def)
  have r: "rayCaster decayConfig (1 / 2, 1 / 2, 1 / 2) (3, 0, 0)
        = [(0, 0, 0), (1, 0, 0)] @ (2, 0, 0) # [(3, 0, 0)] \<and>
      distinct ([(0, 0, 0), (1, 0, 0)] @ [(2, 0, 0) :: GlobalIndex]) \<and>
      (\<forall>i\<in>set [(0, 0, 0), (1, 0, 0)]. \<exists>w. sdf_layer exampleServer i = Some w \<and>
          weight w < 1 / 10 ^ 6 \<and> \<not> is_observed w) \<and>
      sdf_layer exampleServer (2, 0, 0) = Some (exampleVoxel (- 5) 1 5) \<and>
      voxelStatus decayConfig (Some (exampleVoxel (- 5) 1 5)) = kOccupied \<and>
      \<not> is_observed (exampleVoxel (- 5) 1 5)"
    by (simp add: decay_defs voxelStatus_def checkUnknownStatus_def distance_thres_def
        upto.simps)
  from T a have c1: "rayLoop decayConfig (1 / 2, 1 / 2, 1 / 2) [(3, 0, 0)] (initialCounters, exampleServer)
      = (initialCounters, exampleServer)"
    by simp
  from T u have c2: "rayLoop decayConfig (1 / 2, 1 / 2, 1 / 2) [(1, 0, 0)] (initialCounters, exampleServer)
     = (\<lparr>num_unknown = 1, num_free = 0, num_occupied = 0, interestingness_sum = 3 * exp (- 1)\<rparr>,
        exampleServer
          \<lparr>sdf_layer := (sdf_layer exampleServer)
             ((1, 0, 0) \<mapsto> (exampleVoxel 0 0 3)\<lparr>is_observed := True\<rparr>),
           observed_voxels := [(1, 0, 0)]\<rparr>)"
    by (simp add: decay_defs)
  from T r have "getScanStatus decayConfig exampleServer (1 / 2, 1 / 2, 1 / 2) [(3, 0, 0)] =
        (\<Sum>i\<leftarrow>[(0, 0, 0), (1, 0, 0)] @ [(2, 0, 0)].
           case getCenterPointFromGridIndex decayConfig i (voxel_size decayConfig) of
             (cx, cy, cz) \<Rightarrow>
               interestingness (the (sdf_layer exampleServer i)) *
                 exp (- area_factor decayConfig *
                        ((cx - 1 / 2) * (cx - 1 / 2) + (cy - 1 / 2) * (cy - 1 / 2)
                           + (cz - 1 / 2) * (cz - 1 / 2))),
         (of_nat (length [(0, 0, 0), (1, 0, 0) :: GlobalIndex]), 0, 1),
         exampleServer\<lparr>sdf_layer :=
               (\<lambda>i. if i \<in> set ([(0, 0, 0), (1, 0, 0)] @ [(2, 0, 0)])
                    then map_option (\<lambda>w. w\<lparr>is_observed := True\<rparr>) (sdf_layer exampleServer i)
                    else sdf_layer exampleServer i),
             observed_voxels := observed_voxels exampleServer @ [(0, 0, 0), (1, 0, 0)] @ [(2, 0, 0)]\<rparr>)"
    by blast
  also have "\<dots> = (2 + 3 * exp (- 1) + 5 * exp (- 4), (2, 0, 1),
      exampleServer
        \<lparr>sdf_layer := (sdf_layer exampleServer)
           ((0, 0, 0) \<mapsto> (exampleVoxel 0 0 2)\<lparr>is_observed := True\<rparr>,
            (1, 0, 0) \<mapsto> (exampleVoxel 0 0 3)\<lparr>is_observed := True\<rparr>,
            (2, 0, 0) \<mapsto> (exampleVoxel (- 5) 1 5)\<lparr>is_observed := True\<rparr>),
         observed_voxels := [(0, 0, 0), (1, 0, 0), (2, 0, 0)]\<rparr>)"
    by (auto simp add: decay_defs fun_eq_iff)
  finally have c3: "getScanStatus decayConfig exampleServer (1 / 2, 1 / 2, 1 / 2) [(3, 0, 0)] =
     (2 + 3 * exp (- 1) + 5 * exp (- 4), (2, 0, 1),
      exampleServer
        \<lparr>sdf_layer := (sdf_layer exampleServer)
           ((0, 0, 0) \<mapsto> (exampleVoxel 0 0 2)\<lparr>is_observed := True\<rparr>,
            (1, 0, 0) \<mapsto> (exampleVoxel 0 0 3)\<lparr>is_observed := True\<rparr>,
            (2, 0, 0) \<mapsto> (exampleVoxel (- 5) 1 5)\<lparr>is_observed := True\<rparr>),
         observed_voxels := [(0, 0, 0), (1, 0, 0), (2, 0, 0)]\<rparr>)" .
  show ?thesis
    using a u r c1 c2 c3 by blast
qed

text \<open>
  Claim C1 as stated fails for a voxel that is not allocated: a ray that crosses only the
  cell \<open>(3, 0, 0)\<close> of the example map, which is not allocated, leaves the unknown counter at
  0 and the server as it was. The increment is inside \<^verbatim>\<open>if (voxel != nullptr)\<close>.
\<close>

theorem absent_voxel_not_counted:
  "sdf_layer exampleServer (3, 0, 0) = None \<and>
   rayCaster exampleConfig (3, 0, 0) (3, 0, 0) = [(3, 0, 0)] \<and>
   getScanStatus exampleConfig exampleServer (3, 0, 0) [(3, 0, 0)] = (0, (0, 0, 0), exampleServer)"
  by (simp add: example_defs getScanStatus_def checkUnknownStatus_def upto.simps)

subsection \<open>The three-way classification\<close>

text \<open>
  Claim C3, as the code has it. A voxel that is absent or has a weight below \<open>10\<^sup>-\<^sup>6\<close> is
  Unknown; otherwise it is Occupied if and only if its signed distance is at most the voxel
  size plus \<open>10\<^sup>-\<^sup>6\<close>, and Free otherwise. There is no lower bound on the distance of an
  Occupied voxel: every voxel with weight and a negative distance is Occupied. The
  classification is the branch the ray loop takes: an allocated, not yet observed voxel
  increments exactly the counter of its class.
\<close>

theorem classification_by_signed_distance:
  "voxelStatus cfg voxel =
     (case voxel of
        None \<Rightarrow> kUnknown
      | Some w \<Rightarrow>
          if weight w < 1 / 10 ^ 6 then kUnknown
          else if distance w \<le> voxel_size cfg + 1 / 10 ^ 6 then kOccupied
          else kFree) \<and>
   (sdf_layer s g = Some v \<and> \<not> is_observed v \<longrightarrow>
      (let c' = fst (rayLoop cfg p [g] (initialCounters, s))
       in (num_unknown c', num_free c', num_occupied c') =
            (case voxelStatus cfg (Some v) of
               kUnknown \<Rightarrow> (1, 0, 0)
             | kFree \<Rightarrow> (0, 1, 0)
             | kOccupied \<Rightarrow> (0, 0, 1))))"
proof (intro conjI impI)
  show "voxelStatus cfg voxel =
     (case voxel of
        None \<Rightarrow> kUnknown
      | Some w \<Rightarrow>
          if weight w < 1 / 10 ^ 6 then kUnknown
          else if distance w \<le> voxel_size cfg + 1 / 10 ^ 6 then kOccupied
          else kFree)"
    by (cases voxel) (simp_all add: voxelStatus_None voxelStatus_Some)
next
  assume "sdf_layer s g = Some v \<and> \<not> is_observed v"
  then show "let c' = fst (rayLoop cfg p [g] (initialCounters, s))
       in (num_unknown c', num_free c', num_occupied c') =
            (case voxelStatus cfg (Some v) of
               kUnknown \<Rightarrow> (1, 0, 0)
             | kFree \<Rightarrow> (0, 1, 0)
             | kOccupied \<Rightarrow> (0, 0, 1))"
    by (cases "voxelStatus cfg (Some v)")
       (simp_all add: rayLoop_status initialCounters_def del: rayLoop.simps(2))
qed

text \<open>The theorem of claim C3 on the voxel with weight and distance 2 of the example map.\<close>

theorem classification_by_signed_distance_witness:
  "sdf_layer exampleServer (4, 0, 0) = Some (exampleVoxel 2 1 7) \<and>
   \<not> is_observed (exampleVoxel 2 1 7) \<and>
   voxelStatus exampleConfig (Some (exampleVoxel 2 1 7)) = kFree \<and>
   (let c' = fst (rayLoop exampleConfig (4, 0, 0) [(4, 0, 0)] (initialCounters, exampleServer))
    in (num_unknown c', num_free c', num_occupied c')) = (0, 1, 0)"
proof -
  note T = classification_by_signed_distance [where cfg = exampleConfig and s = exampleServer
      and g = "(4, 0, 0)" and v = "exampleVoxel 2 1 7" and p = "(4, 0, 0)"
      and voxel = "Some (exampleVoxel 2 1 7)"]
  have h: "sdf_layer exampleServer (4, 0, 0) = Some (exampleVoxel 2 1 7) \<and>
      \<not> is_observed (exampleVoxel 2 1 7)"
    by (simp add: exampleServer_def exampleVoxel_def)
  have st: "voxelStatus exampleConfig (Some (exampleVoxel 2 1 7)) = kFree"
    using T by (simp add: exampleConfig_def exampleVoxel_def)
  from T h show ?thesis
    unfolding st by (simp add: Let_def)
qed

text \<open>
  Claim C3 as stated fails for a distance far below zero: the voxel in cell 2 of the example
  map has weight 1 and distance \<open>-5\<close>, so its absolute distance exceeds the voxel size 1 plus
  \<open>10\<^sup>-\<^sup>6\<close>, and it is Occupied, and counted as occupied by the scan.
\<close>

theorem negative_distance_is_occupied:
  "sdf_layer exampleServer (2, 0, 0) = Some (exampleVoxel (- 5) 1 5) \<and>
   \<not> weight (exampleVoxel (- 5) 1 5) < 1 / 10 ^ 6 \<and>
   \<not> \<bar>distance (exampleVoxel (- 5) 1 5)\<bar> \<le> voxel_size exampleConfig + 1 / 10 ^ 6 \<and>
   voxelStatus exampleConfig (sdf_layer exampleServer (2, 0, 0)) = kOccupied \<and>
   fst (snd (getScanStatus exampleConfig exampleServer (2, 0, 0) [(2, 0, 0)])) = (0, 0, 1)"
  by (simp add: example_defs voxelStatus_def checkUnknownStatus_def distance_thres_def
      getScanStatus_def upto.simps)

subsection \<open>The queue of observed voxels\<close>

lemma dom_markedLayer: "dom (markedLayer layer pushed) = dom layer"
  by (auto simp: markedLayer_def dom_def split: if_splits)

lemma getScanStatus_effect:
  "\<exists>pushed. scanEffect s pushed (snd (snd (getScanStatus cfg s pos eps)))"
  using endpointLoop_effect [of s cfg pos eps initialCounters]
  by (auto simp add: getScanStatus_def split: prod.splits)

text \<open>
  Claim C10. The indices that \<^verbatim>\<open>getScanStatus\<close> pushes on the queue of observed voxels are
  appended to the queue and are all allocated in the layer the scan leaves. Hence, when the
  indices already in the queue are allocated and the reset loop runs on the server as the
  scan left it, the loop finishes without dereferencing a null pointer.
\<close>

theorem pushed_indices_are_allocated:
  "(\<exists>pushed.
      observed_voxels (snd (snd (getScanStatus cfg s pos eps))) = observed_voxels s @ pushed \<and>
      set pushed \<subseteq> dom (sdf_layer (snd (snd (getScanStatus cfg s pos eps))))) \<and>
   (set (observed_voxels s) \<subseteq> dom (sdf_layer s) \<longrightarrow>
      (\<exists>s''. resetObservedVoxels (snd (snd (getScanStatus cfg s pos eps))) = Inr s''))"
proof -
  let ?s' = "snd (snd (getScanStatus cfg s pos eps))"
  obtain pushed where e: "scanEffect s pushed ?s'"
    using getScanStatus_effect by blast
  have q: "observed_voxels ?s' = observed_voxels s @ pushed"
    and l: "sdf_layer ?s' = markedLayer (sdf_layer s) pushed"
    using e unfolding scanEffect_def by simp_all
  have p: "set pushed \<subseteq> dom (sdf_layer s)"
    using e unfolding scanEffect_def by auto
  have d: "dom (sdf_layer ?s') = dom (sdf_layer s)"
    unfolding l by (rule dom_markedLayer)
  have "\<exists>s''. resetObservedVoxels ?s' = Inr s''"
    if "set (observed_voxels s) \<subseteq> dom (sdf_layer s)"
  proof -
    have "set (observed_voxels ?s') \<subseteq> dom (sdf_layer ?s')"
      unfolding q d using that p by simp
    from drainLoop_ok [OF this] show ?thesis
      by (simp add: resetObservedVoxels_def)
  qed
  then show ?thesis using q p d by blast
qed

text \<open>The theorem of claim C10 on the example map, for one ray from cell 0 to cell 4.\<close>

theorem pushed_indices_are_allocated_witness:
  "set (observed_voxels exampleServer) \<subseteq> dom (sdf_layer exampleServer) \<and>
   (\<exists>s''. resetObservedVoxels
      (snd (snd (getScanStatus exampleConfig exampleServer (0, 0, 0) [(4, 0, 0)]))) = Inr s'')"
proof -
  have h: "set (observed_voxels exampleServer) \<subseteq> dom (sdf_layer exampleServer)"
    by (simp add: exampleServer_def)
  from pushed_indices_are_allocated [of exampleConfig exampleServer "(0, 0, 0)" "[(4, 0, 0)]"] h
  show ?thesis by blast
qed

subsection \<open>Repeating a gain evaluation\<close>

lemma compute_effect:
  "\<exists>pushed. scanEffect s pushed (snd (computeVolumetricGainRayModelNoBound cfg s state))"
proof -
  obtain s0 s1 s2 s3 s4 s5 where st: "state = (s0, s1, s2, s3, s4, s5)"
    by (cases state) auto
  show ?thesis
    using getScanStatus_effect [of s cfg "(s0, s1, s2)" "getFrustumEndpoints (camera_param cfg) state"]
    by (auto simp add: computeVolumetricGainRayModelNoBound_def st split: prod.splits)
qed

text \<open>
  Claim C7. From a server whose queue of observed voxels is empty, as it is when the server
  is built and after every reset loop, evaluating the gain of a state, running the reset loop
  and evaluating the gain of the same state again gives the same \<^verbatim>\<open>VolumetricGain\<close>: the
  same gain and the same three counters. The reset loop finishes and restores the server
  exactly.
\<close>

theorem gain_evaluation_repeatable:
  assumes "observed_voxels s = []"
  shows "\<exists>s2. resetObservedVoxels (snd (computeVolumetricGainRayModelNoBound cfg s state)) = Inr s2 \<and>
           s2 = s \<and>
           fst (computeVolumetricGainRayModelNoBound cfg s2 state)
             = fst (computeVolumetricGainRayModelNoBound cfg s state)"
proof -
  obtain pushed where "scanEffect s pushed (snd (computeVolumetricGainRayModelNoBound cfg s state))"
    using compute_effect by blast
  from drain_restores [OF this assms] show ?thesis by simp
qed

text \<open>
  The theorem of claim C7 on the example map: the four rays of the example camera, cast from
  the origin without rotation.
\<close>

theorem gain_evaluation_repeatable_witness:
  "observed_voxels exampleServer = [] \<and>
   fst (computeVolumetricGainRayModelNoBound exampleConfig exampleServer (0, 0, 0, 0, 0, 0))
     = \<lparr>gain = 10, accumulative_gain = 0, num_unknown_voxels = 2, num_free_voxels = 0,
        num_occupied_voxels = 1, num_unknown_surf_voxels = 0, unseen_voxel_hash_keys = [],
        is_frontier = False\<rparr> \<and>
   (\<exists>s2. resetObservedVoxels
        (snd (computeVolumetricGainRayModelNoBound exampleConfig exampleServer (0, 0, 0, 0, 0, 0)))
          = Inr s2 \<and>
      fst (computeVolumetricGainRayModelNoBound exampleConfig s2 (0, 0, 0, 0, 0, 0))
        = \<lparr>gain = 10, accumulative_gain = 0, num_unknown_voxels = 2, num_free_voxels = 0,
        num_occupied_voxels = 1, num_unknown_surf_voxels = 0, unseen_voxel_hash_keys = [],
        is_frontier = False\<rparr>)"
proof -
  have h: "observed_voxels exampleServer = []"
    by (simp add: exampleServer_def)
  have v: "fst (computeVolumetricGainRayModelNoBound exampleConfig exampleServer (0, 0, 0, 0, 0, 0))
     = \<lparr>gain = 10, accumulative_gain = 0, num_unknown_voxels = 2, num_free_voxels = 0,
        num_occupied_voxels = 1, num_unknown_surf_voxels = 0, unseen_voxel_hash_keys = [],
        is_frontier = False\<rparr>"
    by (simp add: computeVolumetricGainRayModelNoBound_def getScanStatus_def getFrustumEndpoints_def
        rotateX_def rotateY_def rotateZ_def addPoint_def example_defs checkUnknownStatus_def
        distance_thres_def decayedInterestingness_def markObserved_def upto.simps)
  from gain_evaluation_repeatable [OF h, of exampleConfig "(0, 0, 0, 0, 0, 0)"] h v
  show ?thesis by auto
qed

subsection \<open>The end points of the frustum\<close>





























































subsection \<open>The diffusion\<close>

lemma exampleSeeded_run: "spreadInterestingness exampleConfig exampleSeeded = Some (Inr exampleDiffused)"
  by (simp add: spreadInterestingness.simps visitNeighbor_def checkUnknownStatus_def
      exampleSeeded_def exampleDiffused_def exampleConfig_def exampleVoxel_def fun_upd_twist)

lemma notYetQueued_subset: "notYetQueued s \<subseteq> dom (sdf_layer s)"
  by (auto simp: notYetQueued_def)

lemma finite_notYetQueued: "finite (dom (sdf_layer s)) \<Longrightarrow> finite (notYetQueued s)"
  using notYetQueued_subset by (rule finite_subset)

lemma visitNeighbor_cases:
  assumes "visitNeighbor cfg p n s = Inr s'"
  obtains (same) "s' = s"
  | (update) v u where "sdf_layer s n = Some v" "in_queue u = in_queue v"
      "interesting_distance u \<le> interesting_distance v"
      "s' = s\<lparr>sdf_layer := (sdf_layer s)(n \<mapsto> u)\<rparr>"
  | (push) v u where "sdf_layer s n = Some v" "\<not> in_queue v"
      "interesting_distance u \<le> interesting_distance v"
      "real_of_int (interesting_distance u) < decay_distance cfg"
      "s' = s\<lparr>sdf_layer := (sdf_layer s)(n \<mapsto> u\<lparr>in_queue := True\<rparr>),
              interesting_voxels := interesting_voxels s @ [n]\<rparr>"
proof (cases "sdf_layer s n")
  case None
  with assms have "s' = s" by (simp add: visitNeighbor_def)
  then show ?thesis by (rule same)
next
  case (Some v)
  show ?thesis
  proof (cases "checkUnknownStatus (Some v)")
    case False
    with Some assms have "s' = s" by (simp add: visitNeighbor_def)
    then show ?thesis by (rule same)
  next
    case True
    with Some assms obtain pv where pv: "sdf_layer s p = Some pv"
      by (cases "sdf_layer s p") (simp_all add: visitNeighbor_def)
    define u where "u =
        (if interesting_distance v > interesting_distance pv + 1
         then v\<lparr>interesting_distance := interesting_distance pv + 1,
                interestingness := decay_lambda cfg * interestingness pv\<rparr>
         else v)"
    have q: "in_queue u = in_queue v" and d: "interesting_distance u \<le> interesting_distance v"
      by (simp_all add: u_def)
    show ?thesis
    proof (cases "\<not> in_queue u \<and> real_of_int (interesting_distance u) < decay_distance cfg")
      case True
      have "s' = s\<lparr>sdf_layer := (sdf_layer s)(n \<mapsto> u\<lparr>in_queue := True\<rparr>),
              interesting_voxels := interesting_voxels s @ [n]\<rparr>"
        using assms Some \<open>checkUnknownStatus (Some v)\<close> pv True
        by (simp add: visitNeighbor_def u_def [symmetric] Let_def)
      then show ?thesis using push [OF Some _ d] True q by simp
    next
      case False
      have "s' = s\<lparr>sdf_layer := (sdf_layer s)(n \<mapsto> u)\<rparr>"
        using assms Some \<open>checkUnknownStatus (Some v)\<close> pv False
        by (simp add: visitNeighbor_def u_def [symmetric] Let_def)
      then show ?thesis using update [OF Some q d] by simp
    qed
  qed
qed

lemma visitNeighbor_measure:
  assumes fin: "finite (dom (sdf_layer s))" and v: "visitNeighbor cfg p n s = Inr s'"
  shows "finite (dom (sdf_layer s')) \<and> diffusionMeasure s' \<le> diffusionMeasure s"
  using v
proof (cases rule: visitNeighbor_cases)
  case same
  then show ?thesis using fin by simp
next
  case (update v u)
  have "notYetQueued s' = notYetQueued s"
    using update by (auto simp: notYetQueued_def)
  moreover have "dom (sdf_layer s') = dom (sdf_layer s)"
    using update by auto
  ultimately show ?thesis using fin update(4) by (simp add: diffusionMeasure_def)
next
  case (push v u)
  have n: "n \<in> notYetQueued s" using push by (auto simp: notYetQueued_def)
  have "notYetQueued s' = notYetQueued s - {n}"
    using push by (auto simp: notYetQueued_def)
  then have "card (notYetQueued s') + 1 = card (notYetQueued s)"
    using card_Suc_Diff1 [OF finite_notYetQueued [OF fin] n] by simp
  moreover have "dom (sdf_layer s') = dom (sdf_layer s)"
    using push by auto
  ultimately show ?thesis using fin push(5) by (simp add: diffusionMeasure_def)
qed

lemma neighborLoop_measure:
  "finite (dom (sdf_layer s)) \<Longrightarrow> neighborLoop cfg p ns s = Inr s' \<Longrightarrow>
   finite (dom (sdf_layer s')) \<and> diffusionMeasure s' \<le> diffusionMeasure s"
proof (induction ns arbitrary: s)
  case Nil
  then show ?case by simp
next
  case (Cons n ns)
  from Cons.prems(2) obtain s1 where s1: "visitNeighbor cfg p n s = Inr s1"
    and rest: "neighborLoop cfg p ns s1 = Inr s'"
    by (cases "visitNeighbor cfg p n s") simp_all
  from visitNeighbor_measure [OF Cons.prems(1) s1] Cons.IH [OF _ rest]
  show ?case by force
qed

text \<open>
  Claim C6. On a layer with finitely many allocated voxels (a layer is a hash map of
  allocated blocks) \<^verbatim>\<open>spreadInterestingness\<close> returns, with the error of a null parent or with
  a server. Every push sets the \<^verbatim>\<open>in_queue\<close> flag of a voxel that did not have it, no visit
  clears a flag, and every iteration pops one index: the number of voxels without the flag
  plus the length of the queue decreases with every iteration.
\<close>

theorem spreadInterestingness_terminates:
  assumes "finite (dom (sdf_layer s))"
  shows "\<exists>r. spreadInterestingness cfg s = Some r"
  using assms
proof (induction "diffusionMeasure s" arbitrary: s rule: less_induct)
  case less
  show ?case
  proof (cases "interesting_voxels s")
    case Nil
    then show ?thesis by (subst spreadInterestingness.simps) simp
  next
    case (Cons g rest)
    let ?s0 = "s\<lparr>interesting_voxels := rest\<rparr>"
    have m0: "diffusionMeasure ?s0 < diffusionMeasure s"
      using Cons by (simp add: diffusionMeasure_def notYetQueued_def)
    have f0: "finite (dom (sdf_layer ?s0))" using less.prems by simp
    show ?thesis
    proof (cases "neighborLoop cfg g (getFromGlobalIndex cfg g) ?s0")
      case (Inl e)
      then show ?thesis using Cons by (subst spreadInterestingness.simps) simp
    next
      case (Inr s')
      from neighborLoop_measure [OF f0 Inr]
      have "finite (dom (sdf_layer s'))" and "diffusionMeasure s' < diffusionMeasure s"
        using m0 by simp_all
      from less.hyps [OF this(2) this(1)] show ?thesis
        using Cons Inr by (subst spreadInterestingness.simps) simp
    qed
  qed
qed

text \<open>The theorem of claim C6 on the seeded example map, with the result of the run.\<close>

theorem spreadInterestingness_terminates_witness:
  "finite (dom (sdf_layer exampleSeeded)) \<and>
   (\<exists>r. spreadInterestingness exampleConfig exampleSeeded = Some r) \<and>
   spreadInterestingness exampleConfig exampleSeeded = Some (Inr exampleDiffused)"
proof -
  have f: "finite (dom (sdf_layer exampleSeeded))"
    by (simp add: exampleSeeded_def)
  from spreadInterestingness_terminates [OF f, of exampleConfig] f exampleSeeded_run
  show ?thesis by simp
qed

lemma diffusionEffect_refl: "diffusionEffect cfg s s"
  by (auto simp: diffusionEffect_def)

lemma diffusionEffect_trans:
  assumes a: "diffusionEffect cfg s s1" and b: "diffusionEffect cfg s1 s2"
  shows "diffusionEffect cfg s s2"
  unfolding diffusionEffect_def
proof (intro conjI allI impI)
  fix i v assume v: "sdf_layer s i = Some v"
  with a obtain v1 where v1: "sdf_layer s1 i = Some v1"
      "interesting_distance v1 \<le> interesting_distance v" "in_queue v \<longrightarrow> in_queue v1"
    unfolding diffusionEffect_def by blast
  with b obtain v2 where "sdf_layer s2 i = Some v2"
      "interesting_distance v2 \<le> interesting_distance v1" "in_queue v1 \<longrightarrow> in_queue v2"
    unfolding diffusionEffect_def by blast
  with v1 show "\<exists>v'. sdf_layer s2 i = Some v' \<and> interesting_distance v' \<le> interesting_distance v \<and>
              (in_queue v \<longrightarrow> in_queue v')"
    by auto
next
  fix i v v2
  assume h: "sdf_layer s i = Some v \<and> \<not> in_queue v \<and> sdf_layer s2 i = Some v2 \<and> in_queue v2"
  with a obtain v1 where v1: "sdf_layer s1 i = Some v1"
    unfolding diffusionEffect_def by blast
  show "real_of_int (interesting_distance v2) < decay_distance cfg"
  proof (cases "in_queue v1")
    case True
    with a h v1 have "real_of_int (interesting_distance v1) < decay_distance cfg"
      unfolding diffusionEffect_def by blast
    moreover from b v1 h have "interesting_distance v2 \<le> interesting_distance v1"
      unfolding diffusionEffect_def by fastforce
    ultimately show ?thesis by linarith
  next
    case False
    with b v1 h show ?thesis unfolding diffusionEffect_def by blast
  qed
qed

lemma visitNeighbor_effect:
  assumes "visitNeighbor cfg p n s = Inr s'"
  shows "diffusionEffect cfg s s'"
  using assms
proof (cases rule: visitNeighbor_cases)
  case same
  then show ?thesis by (simp add: diffusionEffect_refl)
next
  case (update v u)
  then show ?thesis by (auto simp: diffusionEffect_def)
next
  case (push v u)
  then show ?thesis by (auto simp: diffusionEffect_def)
qed

lemma neighborLoop_effect:
  "neighborLoop cfg p ns s = Inr s' \<Longrightarrow> diffusionEffect cfg s s'"
proof (induction ns arbitrary: s)
  case Nil
  then show ?case by (simp add: diffusionEffect_refl)
next
  case (Cons n ns)
  from Cons.prems obtain s1 where s1: "visitNeighbor cfg p n s = Inr s1"
    and rest: "neighborLoop cfg p ns s1 = Inr s'"
    by (cases "visitNeighbor cfg p n s") simp_all
  from diffusionEffect_trans [OF visitNeighbor_effect [OF s1] Cons.IH [OF rest]]
  show ?case .
qed

lemma spreadInterestingness_effect:
  assumes "spreadInterestingness cfg s = Some r"
  shows "\<forall>s'. r = Inr s' \<longrightarrow> diffusionEffect cfg s s'"
  using assms
proof (induction cfg s r rule: spreadInterestingness.raw_induct [rotated 1, consumes 1])
  case (1 spread cfg s r)
  show ?case
  proof (cases "interesting_voxels s")
    case Nil
    with 1(2) show ?thesis by (auto simp: diffusionEffect_refl)
  next
    case (Cons g rest)
    let ?s0 = "s\<lparr>interesting_voxels := rest\<rparr>"
    have e0: "diffusionEffect cfg s ?s0" by (auto simp: diffusionEffect_def)
    show ?thesis
    proof (cases "neighborLoop cfg g (getFromGlobalIndex cfg g) ?s0")
      case (Inl e)
      with 1(2) Cons show ?thesis by auto
    next
      case (Inr s1)
      with 1(2) Cons have "spread cfg s1 = Some r" by simp
      from 1(1) [OF this] have "\<forall>s'. r = Inr s' \<longrightarrow> diffusionEffect cfg s1 s'" .
      with diffusionEffect_trans [OF diffusionEffect_trans [OF e0 neighborLoop_effect [OF Inr]]]
      show ?thesis by blast
    qed
  qed
qed

text \<open>
  Claim C5. The visit of a neighbour either leaves the queue as it is or appends the
  neighbour index; in the second case the neighbour was allocated with its \<^verbatim>\<open>in_queue\<close> flag
  not set, and the voxel as the visit leaves it (with its possibly just updated propagation
  distance) has the flag set and a propagation distance strictly below \<^verbatim>\<open>decay_distance_\<close>.
  Over a whole run that returns: every voxel whose flag the run has set, that is every voxel
  the run has pushed, has a propagation distance below the cutoff at the end.
\<close>

theorem pushes_below_cutoff:
  "(visitNeighbor cfg p n s = Inr s' \<longrightarrow>
      interesting_voxels s' = interesting_voxels s \<or>
      (interesting_voxels s' = interesting_voxels s @ [n] \<and>
       (\<exists>v v'. sdf_layer s n = Some v \<and> \<not> in_queue v \<and> sdf_layer s' n = Some v' \<and>
          in_queue v' \<and> real_of_int (interesting_distance v') < decay_distance cfg))) \<and>
   (spreadInterestingness cfg s0 = Some (Inr s1) \<longrightarrow>
      (\<forall>i v v'. sdf_layer s0 i = Some v \<and> \<not> in_queue v \<and> sdf_layer s1 i = Some v' \<and> in_queue v'
         \<longrightarrow> real_of_int (interesting_distance v') < decay_distance cfg))"
proof (intro conjI impI)
  assume "visitNeighbor cfg p n s = Inr s'"
  then show "interesting_voxels s' = interesting_voxels s \<or>
      (interesting_voxels s' = interesting_voxels s @ [n] \<and>
       (\<exists>v v'. sdf_layer s n = Some v \<and> \<not> in_queue v \<and> sdf_layer s' n = Some v' \<and>
          in_queue v' \<and> real_of_int (interesting_distance v') < decay_distance cfg))"
  proof (cases rule: visitNeighbor_cases)
    case same
    then show ?thesis by simp
  next
    case (update v u)
    then show ?thesis by simp
  next
    case (push v u)
    then show ?thesis by auto
  qed
next
  assume "spreadInterestingness cfg s0 = Some (Inr s1)"
  from spreadInterestingness_effect [OF this] have "diffusionEffect cfg s0 s1" by simp
  then show "\<forall>i v v'. sdf_layer s0 i = Some v \<and> \<not> in_queue v \<and> sdf_layer s1 i = Some v' \<and> in_queue v'
         \<longrightarrow> real_of_int (interesting_distance v') < decay_distance cfg"
    unfolding diffusionEffect_def by blast
qed

text \<open>
  The theorem of claim C5 on the seeded example map: the visit of cell 1 from the seed, and
  cell 2 over the whole run.
\<close>

theorem pushes_below_cutoff_witness:
  "visitNeighbor exampleConfig (0, 0, 0) (1, 0, 0) (exampleSeeded\<lparr>interesting_voxels := []\<rparr>) =
     Inr (exampleSeeded
           \<lparr>sdf_layer := (sdf_layer exampleSeeded)
              ((1, 0, 0) \<mapsto> (exampleVoxel 0 0 (1 / 2))\<lparr>interesting_distance := 1, in_queue := True\<rparr>),
            interesting_voxels := [(1, 0, 0)]\<rparr>) \<and>
   real_of_int (interesting_distance
      ((exampleVoxel 0 0 (1 / 2))\<lparr>interesting_distance := 1, in_queue := True\<rparr>))
     < decay_distance exampleConfig \<and>
   spreadInterestingness exampleConfig exampleSeeded = Some (Inr exampleDiffused) \<and>
   sdf_layer exampleSeeded (2, 0, 0) = Some (exampleVoxel 0 0 0) \<and>
   \<not> in_queue (exampleVoxel 0 0 0) \<and>
   sdf_layer exampleDiffused (2, 0, 0) =
     Some ((exampleVoxel 0 0 (1 / 4))\<lparr>interesting_distance := 2, in_queue := True\<rparr>) \<and>
   in_queue ((exampleVoxel 0 0 (1 / 4))\<lparr>interesting_distance := 2, in_queue := True\<rparr>) \<and>
   real_of_int (interesting_distance
      ((exampleVoxel 0 0 (1 / 4))\<lparr>interesting_distance := 2, in_queue := True\<rparr>))
     < decay_distance exampleConfig"
proof -
  let ?sA = "exampleSeeded
           \<lparr>sdf_layer := (sdf_layer exampleSeeded)
              ((1, 0, 0) \<mapsto> (exampleVoxel 0 0 (1 / 2))\<lparr>interesting_distance := 1, in_queue := True\<rparr>),
            interesting_voxels := [(1, 0, 0)]\<rparr>"
  note T = pushes_below_cutoff [where cfg = exampleConfig and p = "(0, 0, 0)" and n = "(1, 0, 0)"
      and s = "exampleSeeded\<lparr>interesting_voxels := []\<rparr>" and s' = ?sA
      and ?s0.0 = exampleSeeded and ?s1.0 = exampleDiffused]
  have v: "visitNeighbor exampleConfig (0, 0, 0) (1, 0, 0)
      (exampleSeeded\<lparr>interesting_voxels := []\<rparr>) = Inr ?sA"
    by (simp add: visitNeighbor_def checkUnknownStatus_def exampleSeeded_def exampleConfig_def
        exampleVoxel_def)
  have r: "spreadInterestingness exampleConfig exampleSeeded = Some (Inr exampleDiffused)"
    by (rule exampleSeeded_run)
  have l: "sdf_layer exampleSeeded (2, 0, 0) = Some (exampleVoxel 0 0 0) \<and>
      \<not> in_queue (exampleVoxel 0 0 0) \<and>
      sdf_layer exampleDiffused (2, 0, 0) =
        Some ((exampleVoxel 0 0 (1 / 4))\<lparr>interesting_distance := 2, in_queue := True\<rparr>) \<and>
      in_queue ((exampleVoxel 0 0 (1 / 4))\<lparr>interesting_distance := 2, in_queue := True\<rparr>)"
    by (simp add: exampleSeeded_def exampleDiffused_def exampleVoxel_def)
  from T v have "\<exists>w w'. sdf_layer (exampleSeeded\<lparr>interesting_voxels := []\<rparr>) (1, 0, 0) = Some w \<and>
      \<not> in_queue w \<and> sdf_layer ?sA (1, 0, 0) = Some w' \<and> in_queue w' \<and>
      real_of_int (interesting_distance w') < decay_distance exampleConfig"
    by simp
  then have c1: "real_of_int (interesting_distance
      ((exampleVoxel 0 0 (1 / 2))\<lparr>interesting_distance := 1, in_queue := True\<rparr>))
     < decay_distance exampleConfig"
    by auto
  from T r l have c2: "real_of_int (interesting_distance
      ((exampleVoxel 0 0 (1 / 4))\<lparr>interesting_distance := 2, in_queue := True\<rparr>))
     < decay_distance exampleConfig"
    by blast
  show ?thesis using v r l c1 c2 by blast
qed

subsection \<open>The gain of the trajectory library\<close>

lemma evaluate_then_reset:
  assumes "observed_voxels s = []"
  shows "resetObservedVoxels (snd (computeVolumetricGainRayModelNoBound cfg s state)) = Inr s"
proof -
  obtain pushed where "scanEffect s pushed (snd (computeVolumetricGainRayModelNoBound cfg s state))"
    using compute_effect by blast
  from drain_restores [OF this assms] show ?thesis .
qed

lemma timestepLoop_closed:
  assumes "observed_voxels s = []"
  shows "timestepLoop cfg robot_pose idx ts (seq_gain, s) =
     Inr (seq_gain + (\<Sum>t\<leftarrow>evaluatedSteps ts.
            gain (fst (computeVolumetricGainRayModelNoBound cfg s (timestepState cfg robot_pose idx t)))),
          s)"
proof (induction ts arbitrary: seq_gain)
  case Nil
  show ?case by (simp add: evaluatedSteps_def)
next
  case (Cons t ts)
  show ?case
  proof (cases "t = 2 \<or> t = 6 \<or> t = 10 \<or> t = 14")
    case True
    obtain vgain s' where c: "computeVolumetricGainRayModelNoBound cfg s (timestepState cfg robot_pose idx t) = (vgain, s')"
      by (cases "computeVolumetricGainRayModelNoBound cfg s (timestepState cfg robot_pose idx t)")
    have r: "resetObservedVoxels s' = Inr s"
      using evaluate_then_reset [OF assms, of cfg "timestepState cfg robot_pose idx t"] c by simp
    have "timestepLoop cfg robot_pose idx (t # ts) (seq_gain, s) =
        timestepLoop cfg robot_pose idx ts (seq_gain + gain vgain, s)"
      using True c r by simp
    also have "\<dots> = Inr (seq_gain + gain vgain + (\<Sum>t\<leftarrow>evaluatedSteps ts.
            gain (fst (computeVolumetricGainRayModelNoBound cfg s (timestepState cfg robot_pose idx t)))),
          s)"
      by (rule Cons.IH)
    finally show ?thesis
      using True c by (simp add: evaluatedSteps_def add.assoc)
  next
    case False
    then show ?thesis using Cons.IH [of seq_gain] by (simp add: evaluatedSteps_def)
  qed
qed

lemma evaluatedSteps_all: "evaluatedSteps [0..<kNumTimestep] = [2, 6, 10, 14]"
  by (simp add: evaluatedSteps_def kNumTimestep_def upt_rec)

lemma sequenceLoop_closed:
  assumes "observed_voxels s = []"
  shows "sequenceLoop cfg robot_pose idxs (info_gain, s) =
     Inr (info_gain @ map (\<lambda>idx. \<Sum>t\<leftarrow>[2, 6, 10, 14].
            gain (fst (computeVolumetricGainRayModelNoBound cfg s (timestepState cfg robot_pose idx t))))
          idxs, s)"
proof (induction idxs arbitrary: info_gain)
  case Nil
  show ?case by simp
next
  case (Cons idx idxs)
  show ?case
    unfolding sequenceLoop.simps timestepLoop_closed [OF assms] evaluatedSteps_all
    by (simp add: Cons.IH)
qed

lemma camera_states_rotated_cols:
  "camera_states_rotated cfg (r0, r1, r2, r3, r4, r5) idx (3 * idx2) =
     camera_states cfg idx (6 * idx2) * cos (- r5)
       + camera_states cfg idx (6 * idx2 + 1) * sin (- r5) + r0"
  "camera_states_rotated cfg (r0, r1, r2, r3, r4, r5) idx (3 * idx2 + 1) =
     camera_states cfg idx (6 * idx2) * (- sin (- r5))
       + camera_states cfg idx (6 * idx2 + 1) * cos (- r5) + r1"
  "camera_states_rotated cfg (r0, r1, r2, r3, r4, r5) idx (3 * idx2 + 2) =
     camera_states cfg idx (6 * idx2 + 2) + r2"
proof -
  have d: "Suc (3 * idx2) div 3 = idx2" "Suc (3 * idx2) mod 3 = 1"
      "Suc (Suc (3 * idx2)) div 3 = idx2" "Suc (Suc (3 * idx2)) mod 3 = 2"
    by presburger+
  show "camera_states_rotated cfg (r0, r1, r2, r3, r4, r5) idx (3 * idx2) =
     camera_states cfg idx (6 * idx2) * cos (- r5)
       + camera_states cfg idx (6 * idx2 + 1) * sin (- r5) + r0"
    by (simp add: camera_states_rotated_def Let_def)
  show "camera_states_rotated cfg (r0, r1, r2, r3, r4, r5) idx (3 * idx2 + 1) =
     camera_states cfg idx (6 * idx2) * (- sin (- r5))
       + camera_states cfg idx (6 * idx2 + 1) * cos (- r5) + r1"
    by (simp add: camera_states_rotated_def Let_def d)
  show "camera_states_rotated cfg (r0, r1, r2, r3, r4, r5) idx (3 * idx2 + 2) =
     camera_states cfg idx (6 * idx2 + 2) + r2"
    by (simp add: camera_states_rotated_def Let_def d)
qed

text \<open>
  Claim C9. Called on a server whose queue of observed voxels is empty, the callback returns
  one value for each of the \<open>32 \<cdot> 8 \<cdot> 1\<close> entries of the library: the sum of the gains of
  the four states at the time steps 2, 6, 10 and 14 of the entry. The state at time step
  \<open>idx2\<close> has as position the stored position of the entry at that time step (columns
  \<open>6 \<cdot> idx2\<close> to \<open>6 \<cdot> idx2 + 2\<close> of \<^verbatim>\<open>camera_states_\<close>), rotated about the vertical axis by the
  yaw of the robot and translated by the position of the robot, roll and pitch 0, and as yaw
  the yaw of the robot plus the stored yaw of the entry at that time step (column
  \<open>6 \<cdot> idx2 + 5\<close>). Each gain is evaluated on the server as it was at the call. No other
  time step is evaluated, and the server is left as it was.
\<close>

theorem baseline_gain_is_sum_of_four_steps:
  assumes "observed_voxels s = []"
  shows "baselineInfoGainCallback cfg s (r0, r1, r2, r3, r4, r5) =
     Inr (map (\<lambda>idx. \<Sum>idx2\<leftarrow>[2, 6, 10, 14].
            gain (fst (computeVolumetricGainRayModelNoBound cfg s
              (camera_states cfg idx (6 * idx2) * cos (- r5)
                 + camera_states cfg idx (6 * idx2 + 1) * sin (- r5) + r0,
               camera_states cfg idx (6 * idx2) * (- sin (- r5))
                 + camera_states cfg idx (6 * idx2 + 1) * cos (- r5) + r1,
               camera_states cfg idx (6 * idx2 + 2) + r2,
               0, 0,
               r5 + camera_states cfg idx (6 * idx2 + 5)))))
          [0..<32 * 8 * 1], s)"
proof -
  have n: "kNumYaw * kNumVelZ * kNumVelX = 32 * 8 * 1"
    by (simp add: kNumYaw_def kNumVelZ_def kNumVelX_def)
  have st: "timestepState cfg (r0, r1, r2, r3, r4, r5) idx idx2 =
      (camera_states cfg idx (6 * idx2) * cos (- r5)
         + camera_states cfg idx (6 * idx2 + 1) * sin (- r5) + r0,
       camera_states cfg idx (6 * idx2) * (- sin (- r5))
         + camera_states cfg idx (6 * idx2 + 1) * cos (- r5) + r1,
       camera_states cfg idx (6 * idx2 + 2) + r2,
       0, 0,
       r5 + camera_states cfg idx (6 * idx2 + 5))" for idx idx2
    unfolding timestepState_def prod.case camera_states_rotated_cols ..
  show ?thesis
    unfolding baselineInfoGainCallback_def n
      sequenceLoop_closed [OF assms, of cfg "(r0, r1, r2, r3, r4, r5)" _ "[]"] st
    by simp
qed

text \<open>
  The theorem of claim C9 on the example map, with the robot in cell 1 facing the positive
  y axis and a library whose entries, in the frame of the robot, stand one cell to the left of
  the robot except at the time steps 2 and 14 (at the robot), 6 (one cell to the right) and 10
  (two cells to the right), with a stored yaw that turns the camera back along the x axis.
  The rotation takes left to smaller and right to larger x: the states at the four time
  steps stand in the cells 1, 2, 3 and 1 and have the gains 8, 5, 0 and 8, every other time
  step stands in cell 0 and has the gain 10.
\<close>

lemma library_gains:
  "gain (fst (computeVolumetricGainRayModelNoBound libraryConfig exampleServer (0, 0, 0, 0, 0, 0))) = 10"
  "gain (fst (computeVolumetricGainRayModelNoBound libraryConfig exampleServer (1, 0, 0, 0, 0, 0))) = 8"
  "gain (fst (computeVolumetricGainRayModelNoBound libraryConfig exampleServer (2, 0, 0, 0, 0, 0))) = 5"
  "gain (fst (computeVolumetricGainRayModelNoBound libraryConfig exampleServer (3, 0, 0, 0, 0, 0))) = 0"
  by (simp_all add: computeVolumetricGainRayModelNoBound_def getScanStatus_def getFrustumEndpoints_def
        rotateX_def rotateY_def rotateZ_def addPoint_def libraryConfig_def example_defs
        checkUnknownStatus_def distance_thres_def decayedInterestingness_def markObserved_def
        upto.simps)

theorem baseline_gain_is_sum_of_four_steps_witness:
  "observed_voxels exampleServer = [] \<and>
   baselineInfoGainCallback libraryConfig exampleServer (1, 0, 0, 0, 0, pi / 2)
     = Inr (replicate 256 21, exampleServer)"
proof -
  have h: "observed_voxels exampleServer = []"
    by (simp add: exampleServer_def)
  have lib: "camera_states libraryConfig = exampleLibrary"
    by (simp add: libraryConfig_def exampleConfig_def)
  from baseline_gain_is_sum_of_four_steps [OF h, of libraryConfig 1 0 0 0 0 "pi / 2"]
  have "baselineInfoGainCallback libraryConfig exampleServer (1, 0, 0, 0, 0, pi / 2)
     = Inr (replicate 256 21, exampleServer)"
    by (simp add: lib exampleLibrary_def library_gains map_replicate_const)
  with h show ?thesis by simp
qed

end
